theory Spec2Isabelle
  imports Complex_Main
begin

section \<open>Conventions\<close>

text \<open>
  The development embeds the two source files of gwpopulation that make up its core:
  \<^verbatim>\<open>backend.py\<close> (the backend registry) and \<^verbatim>\<open>models/redshift.py\<close> (the redshift models).

  \<^item> A Python float is a \<^typ>\<open>real\<close>: rounding, \<^verbatim>\<open>inf\<close> and \<^verbatim>\<open>nan\<close> are outside the model.
    HOL's \<open>x / 0 = 0\<close> and \<open>0 powr a = 0\<close> differ from numpy, which returns \<^verbatim>\<open>inf\<close>,
    \<^verbatim>\<open>nan\<close> or \<open>1\<close> there without raising. An equation between two results of the code
    has the same such value on both sides; a statement about the sign or the value of a
    result carries the hypothesis that excludes the case.
  \<^item> An array is a one-dimensional \<^typ>\<open>real list\<close>; its shape is its length. The conversions
    \<^verbatim>\<open>xp.asarray\<close> and \<^verbatim>\<open>to_numpy\<close> change the array type, never the values, and are the
    identity here. Elementwise operations follow numpy: equal lengths combine pointwise, a
    length-one operand is broadcast, anything else raises \<^verbatim>\<open>ValueError\<close>.
  \<^item> An exception is a value of \<open>py_error\<close>; a function that can raise returns
    \<open>py_error + 'a\<close>, and one that also mutates returns the new state beside it.
\<close>

datatype py_error =
    ValueError string
  | TypeError string
  | KeyError string
  | NotImplementedError
  | ModuleNotFoundError string
  | ImportError string
  | OtherError string

type_synonym ndarray = "real list"

type_synonym parameters = "string \<rightharpoonup> real"

type_synonym dataset = "string \<rightharpoonup> ndarray"

section \<open>Array primitives (numpy)\<close>

text \<open>\<^verbatim>\<open>a op b\<close> on two arrays, creating a new array.\<close>

definition broadcast2 :: "(real \<Rightarrow> real \<Rightarrow> real) \<Rightarrow> ndarray \<Rightarrow> ndarray \<Rightarrow> py_error + ndarray" where
  "broadcast2 f xs ys =
     (if length xs = length ys then Inr (map2 f xs ys)
      else if length xs = 1 then Inr (map (f (hd xs)) ys)
      else if length ys = 1 then Inr (map (\<lambda>x. f x (hd ys)) xs)
      else Inl (ValueError ''operands could not be broadcast together''))"

text \<open>
  \<^verbatim>\<open>a op= b\<close>: the result is written into \<open>a\<close>, so \<open>b\<close> must broadcast to the shape of
  \<open>a\<close>; a longer \<open>b\<close> raises \<^verbatim>\<open>ValueError\<close> even when \<open>a\<close> has length one.
\<close>

definition inplace2 :: "(real \<Rightarrow> real \<Rightarrow> real) \<Rightarrow> ndarray \<Rightarrow> ndarray \<Rightarrow> py_error + ndarray" where
  "inplace2 f xs ys =
     (if length ys = length xs then Inr (map2 f xs ys)
      else if length ys = 1 then Inr (map (\<lambda>x. f x (hd ys)) xs)
      else Inl (ValueError ''non-broadcastable output operand''))"

text \<open>
  \<^verbatim>\<open>np.linspace(start, stop, num)\<close>: \<open>num\<close> evenly spaced samples, both ends included.
\<close>

definition linspace :: "real \<Rightarrow> real \<Rightarrow> nat \<Rightarrow> ndarray" where
  "linspace start stop num =
     map (\<lambda>i. start + real i * ((stop - start) / real (num - 1))) [0..<num]"

text \<open>
  \<^verbatim>\<open>np.interp(x, xp, fp)\<close> for an increasing grid \<open>xp\<close>: below the grid the first value,
  above it the last one, in between the chord through the two neighbouring samples.
  \<open>interp_scan\<close> walks the grid to the first sample beyond \<open>x\<close>.
\<close>

fun interp_scan :: "real \<Rightarrow> real list \<Rightarrow> real list \<Rightarrow> real" where
  "interp_scan x (x0 # x1 # xs) (f0 # f1 # fs) =
     (if x < x1 then (f1 - f0) / (x1 - x0) * (x - x0) + f0
      else interp_scan x (x1 # xs) (f1 # fs))"
| "interp_scan x xs (f0 # fs) = f0"
| "interp_scan x xs [] = 0"

definition interp_at :: "real list \<Rightarrow> real list \<Rightarrow> real \<Rightarrow> real" where
  "interp_at xp fp x =
     (if x < hd xp then hd fp
      else if last xp < x then last fp
      else interp_scan x xp fp)"

definition np_interp :: "ndarray \<Rightarrow> real list \<Rightarrow> real list \<Rightarrow> py_error + ndarray" where
  "np_interp x xp fp =
     (if xp = [] then Inl (ValueError ''array of sample points is empty'')
      else if length fp \<noteq> length xp then Inl (ValueError ''fp and xp are not of the same length.'')
      else Inr (map (interp_at xp fp) x))"

section \<open>Numeric helpers of the package that the redshift module imports\<close>

text \<open>
  Modelled from the spec: \<^verbatim>\<open>gwpopulation.utils.powerlaw\<close> is imported by
  \<^verbatim>\<open>models/redshift.py\<close> and is not among the source files. The spec gives
  \<^verbatim>\<open>powerlaw(x, alpha, low, high) -> density_array\<close>, zero outside \<open>[low, high]\<close>, with the
  shape \<open>(x / low) ^ alpha\<close> inside (``\<open>((1+z)/1)^alpha\<close> restricted to \<open>1+z\<close> in
  \<open>[1, 1+z_max]\<close>''). The argument order is the one of the call in the source.
\<close>

definition powerlaw :: "ndarray \<Rightarrow> real \<Rightarrow> real \<Rightarrow> real \<Rightarrow> ndarray" where
  "powerlaw xx alpha high low =
     map (\<lambda>x. if low \<le> x \<and> x \<le> high then (x / low) powr alpha else 0) xx"

text \<open>
  Modelled from the spec: \<^verbatim>\<open>gwpopulation.cupy_utils.trapz\<close> is imported by
  \<^verbatim>\<open>models/redshift.py\<close> and is not among the source files. The spec gives
  \<^verbatim>\<open>trapz(y, x) -> scalar\<close>, numerical integration by the trapezoidal rule: the sum over
  neighbouring samples of \<open>(x\<^sub>1 - x\<^sub>0) * (y\<^sub>1 + y\<^sub>0) / 2\<close>.
\<close>

fun trapz :: "ndarray \<Rightarrow> ndarray \<Rightarrow> real" where
  "trapz (y0 # y1 # ys) (x0 # x1 # xs) =
     (x1 - x0) * (y1 + y0) / 2 + trapz (y1 # ys) (x1 # xs)"
| "trapz ys xs = 0"

section \<open>The redshift models (\<^verbatim>\<open>models/redshift.py\<close>)\<close>

text \<open>
  An instance of \<^verbatim>\<open>_Redshift\<close>. The fields \<^verbatim>\<open>zs_\<close> and \<^verbatim>\<open>dvc_dz_\<close> of the source (the
  numpy copies of the grid and of the volume term) are \<open>zs_np\<close> and \<open>dvc_dz_np\<close>: a name
  cannot end in an underscore here. \<open>cached_dvc_dz\<close> is \<open>None\<close> until the first call.
\<close>

record redshift_model =
  z_max :: real
  zs_np :: ndarray
  zs :: ndarray
  dvc_dz_np :: ndarray
  dvc_dz :: ndarray
  cached_dvc_dz :: "ndarray option"

text \<open>
  \<^verbatim>\<open>__init__\<close>. The cosmology (\<^verbatim>\<open>Planck15.differential_comoving_volume\<close> of astropy, a
  library outside the package) is the parameter \<open>dVc\<close>, applied to each grid point.
\<close>

definition init :: "(real \<Rightarrow> real) \<Rightarrow> real \<Rightarrow> redshift_model" where
  "init dVc zmax =
     (let grid = linspace (1 / 1000) zmax 1000;
          vol = map (\<lambda>z. dVc z * 4 * pi) grid
      in \<lparr>z_max = zmax, zs_np = grid, zs = grid,
          dvc_dz_np = vol, dvc_dz = vol, cached_dvc_dz = None\<rparr>)"

text \<open>
  The overridable method \<^verbatim>\<open>psi_of_z(self, redshift, **parameters)\<close>. The shared methods
  below take it as an argument, which is how a subclass supplies it.
\<close>

type_synonym psi_method = "redshift_model \<Rightarrow> ndarray \<Rightarrow> parameters \<Rightarrow> py_error + ndarray"

definition Redshift_psi_of_z :: psi_method where
  "Redshift_psi_of_z self redshift parameters = Inl NotImplementedError"

definition cache_dvc_dz :: "redshift_model \<Rightarrow> ndarray \<Rightarrow> py_error + redshift_model" where
  "cache_dvc_dz self redshifts =
     (case np_interp redshifts (zs_np self) (dvc_dz_np self) of
        Inl e \<Rightarrow> Inl e
      | Inr v \<Rightarrow> Inr (self\<lparr>cached_dvc_dz := Some v\<rparr>))"

definition normalisation :: "psi_method \<Rightarrow> redshift_model \<Rightarrow> parameters \<Rightarrow> py_error + real" where
  "normalisation psi self parameters =
     (case psi self (zs self) parameters of
        Inl e \<Rightarrow> Inl e
      | Inr psi_of_z \<Rightarrow>
          (case broadcast2 (*) psi_of_z (dvc_dz self) of
             Inl e \<Rightarrow> Inl e
           | Inr a \<Rightarrow>
               (case broadcast2 (/) a (map (\<lambda>z. 1 + z) (zs self)) of
                  Inl e \<Rightarrow> Inl e
                | Inr y \<Rightarrow> Inr (trapz y (zs self)))))"

text \<open>
  \<^verbatim>\<open>p_z *= self.cached_dvc_dz\<close>: with the slot still \<open>None\<close> numpy raises
  \<^verbatim>\<open>TypeError\<close>, with an array that does not broadcast into \<open>p_z\<close> it raises
  \<^verbatim>\<open>ValueError\<close>.
\<close>

definition imul_cached :: "ndarray \<Rightarrow> ndarray option \<Rightarrow> py_error + ndarray" where
  "imul_cached p_z cached =
     (case cached of
        None \<Rightarrow> Inl (TypeError ''unsupported operand type(s) for *=: float and NoneType'')
      | Some c \<Rightarrow> inplace2 (*) p_z c)"

fun caught :: "py_error \<Rightarrow> bool" where
  "caught (TypeError m) = True"
| "caught (ValueError m) = True"
| "caught e = False"

definition probability ::
  "psi_method \<Rightarrow> redshift_model \<Rightarrow> dataset \<Rightarrow> parameters \<Rightarrow> (py_error + ndarray) \<times> redshift_model" where
  "probability psi self dataset parameters =
     (case dataset ''redshift'' of
        None \<Rightarrow> (Inl (KeyError ''redshift''), self)
      | Some redshift \<Rightarrow>
          (case psi self redshift parameters of
             Inl e \<Rightarrow> (Inl e, self)
           | Inr psi_of_z \<Rightarrow>
               (case normalisation psi self parameters of
                  Inl e \<Rightarrow> (Inl e, self)
                | Inr nrm \<Rightarrow>
                    (case broadcast2 (/) psi_of_z (map (\<lambda>z. 1 + z) redshift) of
                       Inl e \<Rightarrow> (Inl e, self)
                     | Inr q \<Rightarrow>
                         (let p_z = map (\<lambda>v. v / nrm) q in
                          case imul_cached p_z (cached_dvc_dz self) of
                            Inr r \<Rightarrow> (Inr r, self)
                          | Inl e \<Rightarrow>
                              if caught e then
                                (case cache_dvc_dz self redshift of
                                   Inl e' \<Rightarrow> (Inl e', self)
                                 | Inr self' \<Rightarrow> (imul_cached p_z (cached_dvc_dz self'), self'))
                              else (Inl e, self))))))"

text \<open>\<^verbatim>\<open>PowerLawRedshift\<close>.\<close>

definition PowerLawRedshift_psi_of_z :: psi_method where
  "PowerLawRedshift_psi_of_z self redshift parameters =
     (case parameters ''lamb'' of
        None \<Rightarrow> Inl (KeyError ''lamb'')
      | Some lamb \<Rightarrow> Inr (powerlaw (map (\<lambda>z. 1 + z) redshift) lamb (1 + z_max self) 1))"

definition PowerLawRedshift_call ::
  "redshift_model \<Rightarrow> dataset \<Rightarrow> real \<Rightarrow> (py_error + ndarray) \<times> redshift_model" where
  "PowerLawRedshift_call self dataset lamb =
     probability PowerLawRedshift_psi_of_z self dataset [''lamb'' \<mapsto> lamb]"

text \<open>\<^verbatim>\<open>MadauDickinsonRedshift\<close>.\<close>

definition MadauDickinsonRedshift_psi_of_z :: psi_method where
  "MadauDickinsonRedshift_psi_of_z self redshift parameters =
     (case parameters ''gamma'' of
        None \<Rightarrow> Inl (KeyError ''gamma'')
      | Some gamma \<Rightarrow>
          (case parameters ''kappa'' of
             None \<Rightarrow> Inl (KeyError ''kappa'')
           | Some kappa \<Rightarrow>
               (case parameters ''z_peak'' of
                  None \<Rightarrow> Inl (KeyError ''z_peak'')
                | Some z_peak \<Rightarrow>
                    (let psi_of_z = powerlaw (map (\<lambda>z. 1 + z) redshift) gamma (1 + z_max self) 1
                     in inplace2 (/) psi_of_z
                          (map (\<lambda>z. 1 + ((1 + z) / (1 + z_peak)) powr kappa) redshift)))))"


section \<open>The backend registry (\<^verbatim>\<open>backend.py\<close>)\<close>

definition all_with_xp :: "string list" where
  "all_with_xp =
     [''hyperpe'', ''models.interped'', ''models.mass'', ''models.redshift'',
      ''models.spin'', ''utils'', ''vt'']"

definition all_with_scs :: "string list" where
  "all_with_scs = [''models.mass'', ''utils'']"

definition SUPPORTED_BACKENDS :: "string list" where
  "SUPPORTED_BACKENDS = [''numpy'', ''cupy'', ''jax'']"

definition np_module :: "string \<rightharpoonup> string" where
  "np_module = [''numpy'' \<mapsto> ''numpy'', ''cupy'' \<mapsto> ''cupy'', ''jax'' \<mapsto> ''jax.numpy'']"

definition scipy_module :: "string \<rightharpoonup> string" where
  "scipy_module = [''numpy'' \<mapsto> ''scipy'', ''cupy'' \<mapsto> ''cupyx.scipy'', ''jax'' \<mapsto> ''jax.scipy'']"

text \<open>
  The process-wide state that \<^verbatim>\<open>set_backend\<close> reads and writes. \<open>current_backend\<close> is
  the global \<^verbatim>\<open>__backend__\<close> (initially the empty string). \<open>bindings\<close> holds the
  attributes of module objects: \<open>bindings st (m, a)\<close> is what the name \<open>a\<close> means in the
  namespace of module \<open>m\<close> at this moment, which is what code of \<open>m\<close> reads when it runs.
  \<open>jax_enable_x64\<close> is the flag of \<^verbatim>\<open>jax.config\<close>. \<open>import_log\<close> records every module
  whose import was requested, in order: the import work done so far.
\<close>

record registry =
  current_backend :: string
  bindings :: "string \<times> string \<rightharpoonup> string"
  jax_enable_x64 :: bool
  import_log :: "string list"

definition initial_registry :: registry where
  "initial_registry =
     \<lparr>current_backend = [], bindings = Map.empty, jax_enable_x64 = False, import_log = []\<rparr>"

text \<open>
  The environment of the interpreter: every module name is absent (not installed), loads,
  or is present and raises an exception while it is executed (installed and broken: a
  missing dependency gives \<^verbatim>\<open>ModuleNotFoundError\<close> for the dependency, a failing
  extension another \<^verbatim>\<open>ImportError\<close>, other code any exception). Python imports the
  parent packages of a dotted name first, so \<^verbatim>\<open>jax.numpy\<close> fails as \<^verbatim>\<open>jax\<close> does when
  \<^verbatim>\<open>jax\<close> fails.
\<close>

datatype module_state = Absent | Loads | Raises py_error

type_synonym importer = "string \<Rightarrow> module_state"

fun outcome :: "string \<Rightarrow> module_state \<Rightarrow> py_error option" where
  "outcome name Absent = Some (ModuleNotFoundError (''No module named '' @ name))"
| "outcome name Loads = None"
| "outcome name (Raises e) = Some e"

fun dotted :: "string \<Rightarrow> string \<Rightarrow> string list" where
  "dotted pre [] = [pre]"
| "dotted pre (c # cs) =
     (if c = CHR ''.'' then pre # dotted (pre @ [c]) cs else dotted (pre @ [c]) cs)"

definition packages_of :: "string \<Rightarrow> string list" where
  "packages_of name = dotted [] name"

fun first_error :: "importer \<Rightarrow> string list \<Rightarrow> py_error option" where
  "first_error env [] = None"
| "first_error env (n # ns) =
     (case outcome n (env n) of Some e \<Rightarrow> Some e | None \<Rightarrow> first_error env ns)"

definition import_result :: "importer \<Rightarrow> string \<Rightarrow> py_error option" where
  "import_result env name = first_error env (packages_of name)"

text \<open>\<^verbatim>\<open>importlib.import_module\<close>: the module object is identified with its name.\<close>

definition import_module :: "importer \<Rightarrow> string \<Rightarrow> registry \<Rightarrow> (py_error + string) \<times> registry" where
  "import_module env name st =
     (let st' = st\<lparr>import_log := import_log st @ [name]\<rparr>
      in case import_result env name of
           Some e \<Rightarrow> (Inl e, st')
         | None \<Rightarrow> (Inr name, st'))"

text \<open>\<^verbatim>\<open>sep.join(xs)\<close>.\<close>

fun join :: "string \<Rightarrow> string list \<Rightarrow> string" where
  "join sep [] = []"
| "join sep [x] = x"
| "join sep (x # y # ys) = x @ sep @ join sep (y # ys)"

text \<open>The two \<^verbatim>\<open>except\<close> clauses around the imports; any other exception passes.\<close>

fun reraise :: "string \<Rightarrow> py_error \<Rightarrow> py_error" where
  "reraise backend (ModuleNotFoundError m) = ModuleNotFoundError (backend @ '' not installed'')"
| "reraise backend (ImportError m) = ImportError (backend @ '' installed but not importable'')"
| "reraise backend e = e"

fun is_ModuleNotFoundError :: "py_error \<Rightarrow> bool" where
  "is_ModuleNotFoundError (ModuleNotFoundError m) = True"
| "is_ModuleNotFoundError e = False"

text \<open>
  \<^verbatim>\<open>from jax import config; config.update("jax_enable_x64", True)\<close>. It stands before
  the \<^verbatim>\<open>try\<close>, so an exception of the import leaves as it is.
\<close>

definition enable_x64 :: "importer \<Rightarrow> registry \<Rightarrow> (py_error + unit) \<times> registry" where
  "enable_x64 env st =
     (case import_module env ''jax'' st of
        (Inl e, st1) \<Rightarrow> (Inl e, st1)
      | (Inr jax, st1) \<Rightarrow> (Inr (), st1\<lparr>jax_enable_x64 := True\<rparr>))"

text \<open>
  The \<^verbatim>\<open>try\<close> block: \<^verbatim>\<open>xp = import_module(_np_module[backend])\<close> and
  \<^verbatim>\<open>scs = import_module(_scipy_module[backend]).special\<close>.
\<close>

definition import_xp_scs ::
  "importer \<Rightarrow> string \<Rightarrow> registry \<Rightarrow> (py_error + string \<times> string) \<times> registry" where
  "import_xp_scs env backend st =
     (case np_module backend of
        None \<Rightarrow> (Inl (KeyError backend), st)
      | Some np_name \<Rightarrow>
          (case import_module env np_name st of
             (Inl e, st1) \<Rightarrow> (Inl (reraise backend e), st1)
           | (Inr xp, st1) \<Rightarrow>
               (case scipy_module backend of
                  None \<Rightarrow> (Inl (KeyError backend), st1)
                | Some scipy_name \<Rightarrow>
                    (case import_module env scipy_name st1 of
                       (Inl e, st2) \<Rightarrow> (Inl (reraise backend e), st2)
                     | (Inr scipy, st2) \<Rightarrow> (Inr (xp, scipy @ ''.special''), st2)))))"

text \<open>
  \<^verbatim>\<open>from jax.scipy.integrate import trapezoid; xp.trapz = trapezoid\<close>, skipped on
  \<^verbatim>\<open>ModuleNotFoundError\<close>.
\<close>

definition alias_trapz :: "importer \<Rightarrow> string \<Rightarrow> registry \<Rightarrow> (py_error + unit) \<times> registry" where
  "alias_trapz env xp st =
     (case import_module env ''jax.scipy.integrate'' st of
        (Inl e, st1) \<Rightarrow> if is_ModuleNotFoundError e then (Inr (), st1) else (Inl e, st1)
      | (Inr integrate, st1) \<Rightarrow>
          (Inr (), st1\<lparr>bindings := (bindings st1)((xp, ''trapz'') \<mapsto> integrate @ ''.trapezoid'')\<rparr>))"

text \<open>
  The two loops. The first one also assigns \<^verbatim>\<open>__backend__\<close>, at the start of each
  iteration.
\<close>

fun rebind_xp ::
  "importer \<Rightarrow> string \<Rightarrow> string \<Rightarrow> string list \<Rightarrow> registry \<Rightarrow> (py_error + unit) \<times> registry" where
  "rebind_xp env backend xp [] st = (Inr (), st)"
| "rebind_xp env backend xp (m # ms) st =
     (case import_module env (''gwpopulation.'' @ m) (st\<lparr>current_backend := backend\<rparr>) of
        (Inl e, st1) \<Rightarrow> (Inl e, st1)
      | (Inr md, st1) \<Rightarrow>
          rebind_xp env backend xp ms (st1\<lparr>bindings := (bindings st1)((md, ''xp'') \<mapsto> xp)\<rparr>))"

fun rebind_scs ::
  "importer \<Rightarrow> string \<Rightarrow> string list \<Rightarrow> registry \<Rightarrow> (py_error + unit) \<times> registry" where
  "rebind_scs env scs [] st = (Inr (), st)"
| "rebind_scs env scs (m # ms) st =
     (case import_module env (''gwpopulation.'' @ m) st of
        (Inl e, st1) \<Rightarrow> (Inl e, st1)
      | (Inr md, st1) \<Rightarrow>
          rebind_scs env scs ms (st1\<lparr>bindings := (bindings st1)((md, ''scs'') \<mapsto> scs)\<rparr>))"

definition set_backend :: "importer \<Rightarrow> registry \<Rightarrow> string \<Rightarrow> (py_error + unit) \<times> registry" where
  "set_backend env st backend =
     (if backend \<notin> set SUPPORTED_BACKENDS then
        (Inl (ValueError (''Backend '' @ backend @ '' not supported, should be in ''
                            @ join '', '' SUPPORTED_BACKENDS)), st)
      else if backend = current_backend st then (Inr (), st)
      else
        (case (if backend = ''jax'' then enable_x64 env st else (Inr (), st)) of
           (Inl e, st1) \<Rightarrow> (Inl e, st1)
         | (Inr u, st1) \<Rightarrow>
             (case import_xp_scs env backend st1 of
                (Inl e, st2) \<Rightarrow> (Inl e, st2)
              | (Inr (xp, scs), st2) \<Rightarrow>
                  (case (if backend = ''jax'' then alias_trapz env xp st2 else (Inr (), st2)) of
                     (Inl e, st3) \<Rightarrow> (Inl e, st3)
                   | (Inr u, st3) \<Rightarrow>
                       (case rebind_xp env backend xp all_with_xp st3 of
                          (Inl e, st4) \<Rightarrow> (Inl e, st4)
                        | (Inr u, st4) \<Rightarrow> rebind_scs env scs all_with_scs st4)))))"

text \<open>
  What code of the package module \<open>m\<close> gets when it evaluates its global name \<open>a\<close>
  (\<^verbatim>\<open>xp\<close> or \<^verbatim>\<open>scs\<close>): the current attribute of the module object.
\<close>

definition global_of :: "registry \<Rightarrow> string \<Rightarrow> string \<Rightarrow> string option" where
  "global_of st m a = bindings st (''gwpopulation.'' @ m, a)"

text \<open>
  The array module behind the arrays that a redshift model holds. In
  \<^verbatim>\<open>models/redshift.py\<close> the name \<^verbatim>\<open>xp\<close> is a global of the module, so \<^verbatim>\<open>xp.asarray(...)\<close>
  gives an array of the module that this global names when the line runs, and the array
  stays an array of that module afterwards. \<open>redshift_xp\<close> is that global. \<^verbatim>\<open>__init__\<close>
  converts the grid and the volume element when the instance is built (\<^verbatim>\<open>self.zs\<close> and
  \<^verbatim>\<open>self.dvc_dz\<close>, lines 17 and 19), and \<^verbatim>\<open>normalisation\<close> reads these two stored arrays at
  every call; \<^verbatim>\<open>_cache_dvc_dz\<close> converts the interpolated volume term when it is called
  (line 26).
\<close>

definition redshift_xp :: "registry \<Rightarrow> string option" where
  "redshift_xp st = global_of st ''models.redshift'' ''xp''"

record array_modules =
  zs_xp :: "string option"
  dvc_dz_xp :: "string option"

definition init_xp :: "registry \<Rightarrow> array_modules" where
  "init_xp st = \<lparr>zs_xp = redshift_xp st, dvc_dz_xp = redshift_xp st\<rparr>"

definition cache_dvc_dz_xp :: "registry \<Rightarrow> string option" where
  "cache_dvc_dz_xp st = redshift_xp st"

section \<open>Notions used to state the properties\<close>

text \<open>
  The volume term interpolated at the redshifts of a dataset against the precomputed
  pair (grid, volume): what \<^verbatim>\<open>_cache_dvc_dz\<close> stores.
\<close>

definition volume_term :: "redshift_model \<Rightarrow> ndarray \<Rightarrow> ndarray" where
  "volume_term self redshift = map (interp_at (zs_np self) (dvc_dz_np self)) redshift"

text \<open>
  The density \<open>psi / (1 + z) / normalisation * volume\<close>, sample by sample, for a
  weighting \<open>psi_of_z\<close> and a volume array \<open>vol\<close> of the shape of \<open>redshift\<close>.
\<close>

definition weighted_density :: "ndarray \<Rightarrow> ndarray \<Rightarrow> real \<Rightarrow> ndarray \<Rightarrow> ndarray" where
  "weighted_density psi_of_z redshift nrm vol =
     map (\<lambda>i. psi_of_z ! i / (1 + redshift ! i) / nrm * vol ! i) [0..<length redshift]"

text \<open>
  What the \<^verbatim>\<open>except\<close> branch of \<^verbatim>\<open>probability\<close> returns for the weighting \<open>w\<close> and
  the normalisation \<open>n\<close>: the cache is refilled from the redshifts at hand.
\<close>

definition recompute ::
  "redshift_model \<Rightarrow> ndarray \<Rightarrow> ndarray \<Rightarrow> real \<Rightarrow> (py_error + ndarray) \<times> redshift_model" where
  "recompute self z w n =
     (case np_interp z (zs_np self) (dvc_dz_np self) of
        Inl e \<Rightarrow> (Inl e, self)
      | Inr v \<Rightarrow> (Inr (weighted_density w z n v), self\<lparr>cached_dvc_dz := Some v\<rparr>))"

text \<open>
  Two demands on an implementation of \<^verbatim>\<open>psi_of_z\<close>: it returns an array of the shape of
  its input (the contract of the spec), and it does not read the cache slot. Both
  implementations of the source meet them.
\<close>

definition shape_preserving :: "psi_method \<Rightarrow> bool" where
  "shape_preserving psi \<longleftrightarrow>
     (\<forall>self redshift parameters w.
        psi self redshift parameters = Inr w \<longrightarrow> length w = length redshift)"

definition cache_blind :: "psi_method \<Rightarrow> bool" where
  "cache_blind psi \<longleftrightarrow>
     (\<forall>self c. psi (self\<lparr>cached_dvc_dz := c\<rparr>) = psi self)"

text \<open>\<^verbatim>\<open>psi_of_z\<close> multiplied by a constant \<open>k\<close>.\<close>

definition rescaled :: "real \<Rightarrow> psi_method \<Rightarrow> psi_method" where
  "rescaled k psi self redshift parameters =
     (case psi self redshift parameters of
        Inl e \<Rightarrow> Inl e
      | Inr w \<Rightarrow> Inr (map ((*) k) w))"

text \<open>
  The value that the spec gives for \<^verbatim>\<open>probability\<close>: \<open>psi_of_z\<close> at the redshifts of the
  dataset, divided by \<open>1 + z\<close> and by \<open>normalisation(parameters)\<close>, times the volume term
  interpolated at exactly those redshifts. It has no cache; the theorems compare
  \<open>probability\<close>, which is the code, with it.
\<close>

definition probability_spec ::
  "psi_method \<Rightarrow> redshift_model \<Rightarrow> dataset \<Rightarrow> parameters \<Rightarrow> py_error + ndarray" where
  "probability_spec psi self dataset parameters =
     (case dataset ''redshift'' of
        None \<Rightarrow> Inl (KeyError ''redshift'')
      | Some redshift \<Rightarrow>
          (case psi self redshift parameters of
             Inl e \<Rightarrow> Inl e
           | Inr psi_of_z \<Rightarrow>
               (case normalisation psi self parameters of
                  Inl e \<Rightarrow> Inl e
                | Inr nrm \<Rightarrow>
                    Inr (weighted_density psi_of_z redshift nrm (volume_term self redshift)))))"

text \<open>
  The cache states in which \<^verbatim>\<open>probability\<close> cannot pick up the volume term of another
  dataset: the slot is empty, or it holds the interpolation at these very redshifts, or
  it holds an array that numpy refuses to multiply into an array of this shape.
\<close>

definition cache_valid_for :: "redshift_model \<Rightarrow> ndarray \<Rightarrow> bool" where
  "cache_valid_for self redshift =
     (case cached_dvc_dz self of
        None \<Rightarrow> True
      | Some c \<Rightarrow>
          c = volume_term self redshift \<or> (length c \<noteq> length redshift \<and> length c \<noteq> 1))"

text \<open>The contract of the spec for \<^verbatim>\<open>psi_of_z\<close>: an array of non-negative reals.\<close>

definition nonnegative :: "psi_method \<Rightarrow> bool" where
  "nonnegative psi \<longleftrightarrow>
     (\<forall>self redshift parameters w.
        psi self redshift parameters = Inr w \<longrightarrow> list_all (\<lambda>v. 0 \<le> v) w)"

text \<open>
  \<^verbatim>\<open>PowerLawRedshift.psi_of_z\<close> over a helper that multiplies the power-law shape by a
  constant \<open>c alpha high low\<close> of its own choice (a normalisation of the density).
\<close>

definition PowerLawRedshift_psi_normalised :: "(real \<Rightarrow> real \<Rightarrow> real \<Rightarrow> real) \<Rightarrow> psi_method" where
  "PowerLawRedshift_psi_normalised c self redshift parameters =
     (case parameters ''lamb'' of
        None \<Rightarrow> Inl (KeyError ''lamb'')
      | Some lamb \<Rightarrow>
          Inr (map ((*) (c lamb (1 + z_max self) 1))
                 (powerlaw (map (\<lambda>z. 1 + z) redshift) lamb (1 + z_max self) 1)))"

text \<open>
  A stand-in cosmology for closed examples: the Euclidean volume element, which grows as
  \<open>z\<^sup>2\<close>. The general lemmas hold for every positive volume element.
\<close>

definition euclidean_dVc :: "real \<Rightarrow> real" where
  "euclidean_dVc z = z ^ 2"

text \<open>
  An instance observes the active backend when the arrays that its methods read, the
  ones it stored at construction, are arrays of the module that \<^verbatim>\<open>xp\<close> names in
  \<^verbatim>\<open>models.redshift\<close> now.
\<close>

definition on_active_backend :: "registry \<Rightarrow> array_modules \<Rightarrow> bool" where
  "on_active_backend st a \<longleftrightarrow> zs_xp a = redshift_xp st \<and> dvc_dz_xp a = redshift_xp st"

text \<open>
  A process for closed examples: no backend was set yet, and the module \<^verbatim>\<open>cupy_utils\<close>,
  from which \<^verbatim>\<open>models/redshift.py\<close> imports \<^verbatim>\<open>xp\<close>, holds numpy under that name.
\<close>

definition imported_registry :: registry where
  "imported_registry =
     initial_registry\<lparr>bindings := [(''gwpopulation.cupy_utils'', ''xp'') \<mapsto> ''numpy'']\<rparr>"

section \<open>Arrays, grids and the trapezoidal rule\<close>

lemma length_linspace: "length (linspace a b n) = n"
  by (simp add: linspace_def)

lemma nth_linspace: "i < n \<Longrightarrow> linspace a b n ! i = a + real i * ((b - a) / real (n - 1))"
  by (simp add: linspace_def)

lemma hd_linspace: "0 < n \<Longrightarrow> hd (linspace a b n) = a"
proof -
  assume n: "0 < n"
  then have "linspace a b n \<noteq> []" using length_linspace [of a b n] by auto
  then have "hd (linspace a b n) = linspace a b n ! 0" by (rule hd_conv_nth)
  then show ?thesis using n by (simp add: nth_linspace)
qed

lemma last_linspace: "1 < n \<Longrightarrow> last (linspace a b n) = b"
proof -
  assume n: "1 < n"
  then have "linspace a b n \<noteq> []" using length_linspace [of a b n] by auto
  then have "last (linspace a b n) = linspace a b n ! (n - 1)"
    by (simp add: last_conv_nth length_linspace)
  also have "\<dots> = a + real (n - 1) * ((b - a) / real (n - 1))"
    using n by (intro nth_linspace) simp
  also have "\<dots> = b" using n by simp
  finally show ?thesis .
qed

lemma linspace_strict: "a < b \<Longrightarrow> sorted_wrt (<) (linspace a b n)"
proof -
  assume ab: "a < b"
  show ?thesis
  proof (cases "n \<le> 1")
    case True
    then have "length (linspace a b n) \<le> 1" by (simp add: length_linspace)
    then show ?thesis by (cases "linspace a b n") (auto simp: Suc_le_eq)
  next
    case False
    define d where "d = (b - a) / real (n - 1)"
    have pos: "0 < d" using ab False by (simp add: d_def)
    have "linspace a b n ! i < linspace a b n ! j" if "i < j" "j < n" for i j
    proof -
      have "real i * d < real j * d" using that pos by simp
      then show ?thesis using that by (simp add: nth_linspace d_def)
    qed
    then show ?thesis
      unfolding sorted_wrt_iff_nth_less by (simp add: length_linspace)
  qed
qed

lemma linspace_bounds:
  assumes "a \<le> b" "x \<in> set (linspace a b n)" shows "a \<le> x \<and> x \<le> b"
proof -
  define d where "d = (b - a) / real (n - 1)"
  from assms(2) obtain i where i: "i < n" and x: "x = a + real i * d"
    by (auto simp: linspace_def d_def)
  have d0: "0 \<le> d" using assms(1) by (simp add: d_def)
  have lo: "0 \<le> real i * d" using d0 by simp
  have hi: "real i * d \<le> b - a"
  proof (cases "n = 1")
    case True then show ?thesis using i assms(1) by simp
  next
    case False
    then have le: "real i \<le> real (n - 1)" and p: "0 < real (n - 1)" using i by auto
    have "real i * d \<le> real (n - 1) * d" using le d0 by (rule mult_right_mono)
    also have "\<dots> = b - a" using p by (simp add: d_def)
    finally show ?thesis .
  qed
  show ?thesis using lo hi x by linarith
qed

lemma trapz_scale: "trapz (map ((*) c) ys) xs = c * trapz ys xs"
  by (induction ys xs rule: trapz.induct) (simp_all add: algebra_simps)

lemma trapz_nonneg:
  "sorted xs \<Longrightarrow> \<forall>y\<in>set ys. 0 \<le> y \<Longrightarrow> 0 \<le> trapz ys xs"
  by (induction ys xs rule: trapz.induct) auto

lemma trapz_pos:
  "sorted_wrt (<) xs \<Longrightarrow> \<forall>y\<in>set ys. 0 < y \<Longrightarrow> 2 \<le> length xs \<Longrightarrow> 2 \<le> length ys \<Longrightarrow> 0 < trapz ys xs"
proof (induction ys xs rule: trapz.induct)
  case (1 y0 y1 ys x0 x1 xs)
  have a: "0 < (x1 - x0) * (y1 + y0) / 2" using 1 by (auto intro!: mult_pos_pos add_pos_pos)
  have "0 \<le> trapz (y1 # ys) (x1 # xs)"
    using 1(2,3) by (intro trapz_nonneg) (auto simp: strict_sorted_imp_sorted less_imp_le)
  with a show ?case by simp
qed auto

lemma trapz_sum:
  "length ys = length xs \<Longrightarrow>
   trapz ys xs = (\<Sum>i<length xs - 1. (xs ! Suc i - xs ! i) * (ys ! Suc i + ys ! i) / 2)"
proof (induction ys xs rule: trapz.induct)
  case (1 y0 y1 ys x0 x1 xs)
  then show ?case by (simp add: sum.lessThan_Suc_shift del: sum.lessThan_Suc)
qed (auto simp: length_Suc_conv)

lemma interp_scan_last:
  "\<forall>y\<in>set xp. y \<le> x \<Longrightarrow> length fp = length xp \<Longrightarrow> xp \<noteq> [] \<Longrightarrow> interp_scan x xp fp = last fp"
proof (induction x xp fp rule: interp_scan.induct)
  case (1 x x0 x1 xs f0 f1 fs)
  then show ?case by auto
qed auto

lemma interp_scan_nonneg:
  "sorted_wrt (<) xp \<Longrightarrow> xp \<noteq> [] \<Longrightarrow> hd xp \<le> x \<Longrightarrow> length fp = length xp \<Longrightarrow> \<forall>f\<in>set fp. 0 \<le> f \<Longrightarrow>
   0 \<le> interp_scan x xp fp"
proof (induction x xp fp rule: interp_scan.induct)
  case (1 x x0 x1 xs f0 f1 fs)
  show ?case
  proof (cases "x < x1")
    case True
    define t where "t = (x - x0) / (x1 - x0)"
    have x01: "x0 < x1" using 1(2) by simp
    have t0: "0 \<le> t" and t1: "t \<le> 1" using True 1(4) x01 by (auto simp: t_def divide_le_eq)
    have f: "0 \<le> f0" "0 \<le> f1" using 1(6) by auto
    have "(f1 - f0) / (x1 - x0) * (x - x0) = (f1 - f0) * t" by (simp add: t_def)
    then have "(f1 - f0) / (x1 - x0) * (x - x0) + f0 = f1 * t + f0 * (1 - t)"
      by (simp add: algebra_simps)
    moreover have "0 \<le> f1 * t + f0 * (1 - t)" using f t0 t1 by (intro add_nonneg_nonneg mult_nonneg_nonneg) auto
    ultimately show ?thesis using True by simp
  next
    case False
    then show ?thesis using 1 by auto
  qed
qed auto

lemma interp_at_nonneg:
  assumes "sorted_wrt (<) xp" "xp \<noteq> []" "length fp = length xp" "\<forall>f\<in>set fp. 0 \<le> f"
  shows "0 \<le> interp_at xp fp x"
proof -
  have fp: "fp \<noteq> []" using assms(2,3) by auto
  then have "0 \<le> hd fp" "0 \<le> last fp" using assms(4) by auto
  then show ?thesis
    using interp_scan_nonneg [OF assms(1,2) _ assms(3,4), of x]
    by (auto simp: interp_at_def not_less)
qed

lemma interp_at_below: "x < hd xp \<Longrightarrow> interp_at xp fp x = hd fp"
  by (simp add: interp_at_def)

lemma sorted_le_last:
  assumes "sorted_wrt (<) (xp :: real list)" "y \<in> set xp" shows "y \<le> last xp"
proof -
  have s: "sorted xp" using assms(1) by (rule strict_sorted_imp_sorted)
  from assms(2) obtain i where i: "i < length xp" "y = xp ! i" by (auto simp: in_set_conv_nth)
  then have ne: "xp \<noteq> []" by auto
  have "xp ! i \<le> xp ! (length xp - 1)" using s i(1) by (intro sorted_nth_mono) auto
  then show ?thesis using i ne by (simp add: last_conv_nth)
qed

lemma interp_at_last:
  assumes "sorted_wrt (<) xp" "xp \<noteq> []" "length fp = length xp"
  shows "interp_at xp fp (last xp) = last fp"
proof -
  have le: "\<forall>y\<in>set xp. y \<le> last xp" using assms(1) by (auto intro: sorted_le_last)
  have "hd xp \<le> last xp" using le assms(2) by auto
  then show ?thesis using interp_scan_last [OF le assms(3,2)] by (simp add: interp_at_def)
qed

section \<open>Evaluating the shared methods\<close>

lemma broadcast2_same: "length xs = length ys \<Longrightarrow> broadcast2 f xs ys = Inr (map2 f xs ys)"
  by (simp add: broadcast2_def)

lemma inplace2_same: "length ys = length xs \<Longrightarrow> inplace2 f xs ys = Inr (map2 f xs ys)"
  by (simp add: inplace2_def)

lemma inplace2_one:
  "length ys \<noteq> length xs \<Longrightarrow> length ys = 1 \<Longrightarrow> inplace2 f xs ys = Inr (map (\<lambda>x. f x (hd ys)) xs)"
  by (simp add: inplace2_def)

lemma inplace2_fail:
  "length ys \<noteq> length xs \<Longrightarrow> length ys \<noteq> 1 \<Longrightarrow> \<exists>m. inplace2 f xs ys = Inl (ValueError m)"
  by (simp add: inplace2_def)

lemma length_weighted_density: "length (weighted_density w z n v) = length z"
  by (simp add: weighted_density_def)

lemma density_same:
  assumes "length w = length z" "length c = length z"
  shows "map2 (*) (map (\<lambda>v. v / n) (map2 (/) w (map (\<lambda>z. 1 + z) z))) c = weighted_density w z n c"
  using assms by (intro nth_equalityI) (simp_all add: weighted_density_def)

lemma density_one:
  assumes "length w = length z"
  shows "map (\<lambda>x. x * h) (map (\<lambda>v. v / n) (map2 (/) w (map (\<lambda>z. 1 + z) z)))
         = weighted_density w z n (replicate (length z) h)"
  using assms by (intro nth_equalityI) (simp_all add: weighted_density_def)

lemma np_interp_ok:
  "xp \<noteq> [] \<Longrightarrow> length fp = length xp \<Longrightarrow> np_interp x xp fp = Inr (map (interp_at xp fp) x)"
  by (simp add: np_interp_def)

lemma probability_eval:
  assumes ds: "dataset ''redshift'' = Some z"
    and psi: "psi self z parameters = Inr w" and len: "length w = length z"
    and nrm: "normalisation psi self parameters = Inr n"
  shows "probability psi self dataset parameters =
     (case cached_dvc_dz self of
        None \<Rightarrow> recompute self z w n
      | Some c \<Rightarrow>
          if length c = length z then (Inr (weighted_density w z n c), self)
          else if length c = 1 then (Inr (weighted_density w z n (replicate (length z) (hd c))), self)
          else recompute self z w n)"
proof -
  define q where "q = map2 (/) w (map (\<lambda>z. 1 + z) z)"
  define p_z where "p_z = map (\<lambda>v. v / n) q"
  have lq: "length p_z = length z" using len by (simp add: p_z_def q_def)
  have bq: "broadcast2 (/) w (map (\<lambda>z. 1 + z) z) = Inr q"
    using len by (simp add: broadcast2_same q_def)
  have unfold: "probability psi self dataset parameters =
      (case imul_cached p_z (cached_dvc_dz self) of
         Inr r \<Rightarrow> (Inr r, self)
       | Inl e \<Rightarrow> if caught e then
            (case cache_dvc_dz self z of
               Inl e' \<Rightarrow> (Inl e', self)
             | Inr self' \<Rightarrow> (imul_cached p_z (cached_dvc_dz self'), self'))
           else (Inl e, self))"
    unfolding p_z_def by (simp add: probability_def ds psi nrm bq Let_def)
  have rec: "(case cache_dvc_dz self z of
               Inl e' \<Rightarrow> (Inl e', self)
             | Inr self' \<Rightarrow> (imul_cached p_z (cached_dvc_dz self'), self')) = recompute self z w n"
  proof (cases "np_interp z (zs_np self) (dvc_dz_np self)")
    case (Inl e)
    then show ?thesis by (simp add: cache_dvc_dz_def recompute_def)
  next
    case (Inr v)
    then have lv: "length v = length z" by (auto simp: np_interp_def split: if_splits)
    have "map2 (*) p_z v = weighted_density w z n v"
      unfolding p_z_def q_def using len lv by (rule density_same)
    then have "inplace2 (*) p_z v = Inr (weighted_density w z n v)"
      using lv lq by (simp add: inplace2_same)
    then show ?thesis using Inr by (simp add: cache_dvc_dz_def recompute_def imul_cached_def)
  qed
  show ?thesis
  proof (cases "cached_dvc_dz self")
    case None
    then show ?thesis by (simp add: unfold imul_cached_def rec)
  next
    case (Some c)
    consider "length c = length z" | "length c \<noteq> length z" "length c = 1"
      | "length c \<noteq> length z" "length c \<noteq> 1" by blast
    then show ?thesis
    proof cases
      case 1
      have "map2 (*) p_z c = weighted_density w z n c"
        unfolding p_z_def q_def using len 1 by (rule density_same)
      then have "inplace2 (*) p_z c = Inr (weighted_density w z n c)"
        using lq 1 by (simp add: inplace2_same)
      then show ?thesis using Some 1 by (simp add: unfold imul_cached_def)
    next
      case 2
      have "map (\<lambda>x. x * hd c) p_z = weighted_density w z n (replicate (length z) (hd c))"
        unfolding p_z_def q_def using len by (rule density_one)
      then have "inplace2 (*) p_z c = Inr (weighted_density w z n (replicate (length z) (hd c)))"
        using lq 2 by (simp add: inplace2_one)
      then show ?thesis using Some 2 by (simp add: unfold imul_cached_def)
    next
      case 3
      then obtain m where "inplace2 (*) p_z c = Inl (ValueError m)"
        using inplace2_fail [of c p_z "(*)"] lq by auto
      then show ?thesis using Some 3 by (simp add: unfold imul_cached_def rec)
    qed
  qed
qed

lemma map2_same: "map2 F (map f xs) (map g xs) = map (\<lambda>x. F (f x) (g x)) xs"
  by (induction xs) auto

lemma init_z_max: "z_max (init dVc zmax) = zmax"
  and init_zs_np: "zs_np (init dVc zmax) = linspace (1 / 1000) zmax 1000"
  and init_zs: "zs (init dVc zmax) = linspace (1 / 1000) zmax 1000"
  and init_dvc_dz_np: "dvc_dz_np (init dVc zmax) = map (\<lambda>z. dVc z * 4 * pi) (linspace (1 / 1000) zmax 1000)"
  and init_dvc_dz: "dvc_dz (init dVc zmax) = map (\<lambda>z. dVc z * 4 * pi) (linspace (1 / 1000) zmax 1000)"
  and init_cached: "cached_dvc_dz (init dVc zmax) = None"
  by (simp_all add: init_def Let_def)

lemmas init_simps = init_z_max init_zs_np init_zs init_dvc_dz_np init_dvc_dz init_cached

lemma normalisation_eval:
  assumes "psi self (zs self) parameters = Inr w" "length w = length (zs self)"
    "length (dvc_dz self) = length (zs self)"
  shows "normalisation psi self parameters =
     Inr (trapz (map2 (/) (map2 (*) w (dvc_dz self)) (map (\<lambda>z. 1 + z) (zs self))) (zs self))"
  using assms by (simp add: normalisation_def broadcast2_same)

lemma powerlaw_shifted:
  "powerlaw (map (\<lambda>z. 1 + z) redshift) alpha (1 + zmax) 1 =
     map (\<lambda>z. if 0 \<le> z \<and> z \<le> zmax then (1 + z) powr alpha else 0) redshift"
  by (simp add: powerlaw_def)

lemma PowerLaw_psi_eval:
  "parameters ''lamb'' = Some lamb \<Longrightarrow>
   PowerLawRedshift_psi_of_z self redshift parameters =
     Inr (map (\<lambda>z. if 0 \<le> z \<and> z \<le> z_max self then (1 + z) powr lamb else 0) redshift)"
  by (simp add: PowerLawRedshift_psi_of_z_def powerlaw_shifted)

lemma MadauDickinson_psi_eval:
  "parameters ''gamma'' = Some gamma \<Longrightarrow> parameters ''kappa'' = Some kappa \<Longrightarrow>
   parameters ''z_peak'' = Some z_peak \<Longrightarrow>
   MadauDickinsonRedshift_psi_of_z self redshift parameters =
     Inr (map (\<lambda>z. (if 0 \<le> z \<and> z \<le> z_max self then (1 + z) powr gamma else 0)
                    / (1 + ((1 + z) / (1 + z_peak)) powr kappa)) redshift)"
  by (simp add: MadauDickinsonRedshift_psi_of_z_def powerlaw_shifted inplace2_same map2_same)

lemma PowerLaw_shape: "shape_preserving PowerLawRedshift_psi_of_z"
  by (auto simp: shape_preserving_def PowerLawRedshift_psi_of_z_def powerlaw_def split: option.splits)

lemma PowerLaw_blind: "cache_blind PowerLawRedshift_psi_of_z"
  by (auto simp: cache_blind_def PowerLawRedshift_psi_of_z_def fun_eq_iff split: option.splits)

lemma MadauDickinson_shape: "shape_preserving MadauDickinsonRedshift_psi_of_z"
  by (auto simp: shape_preserving_def MadauDickinsonRedshift_psi_of_z_def powerlaw_def inplace2_same
      split: option.splits)

lemma MadauDickinson_blind: "cache_blind MadauDickinsonRedshift_psi_of_z"
  by (auto simp: cache_blind_def MadauDickinsonRedshift_psi_of_z_def fun_eq_iff split: option.splits)

lemma normalisation_blind:
  "cache_blind psi \<Longrightarrow> normalisation psi (self\<lparr>cached_dvc_dz := c\<rparr>) parameters = normalisation psi self parameters"
  by (simp add: normalisation_def cache_blind_def split: sum.splits)

section \<open>Properties of the backend registry\<close>

lemma join_supported: "join '', '' SUPPORTED_BACKENDS = ''numpy, cupy, jax''"
  by (simp add: SUPPORTED_BACKENDS_def)

lemma supported_iff: "backend \<in> set SUPPORTED_BACKENDS \<longleftrightarrow> backend \<in> {''numpy'', ''cupy'', ''jax''}"
  by (auto simp: SUPPORTED_BACKENDS_def)

text \<open>
  Claim C4. For every name outside \<open>{numpy, cupy, jax}\<close>, \<^verbatim>\<open>set_backend\<close> raises
  \<^verbatim>\<open>ValueError\<close> with a message that lists the supported names, whatever the environment
  would answer to an import, and returns the state as it was: the active backend, every
  module binding and the import log are unchanged, so no import was attempted.
\<close>

theorem set_backend_unsupported:
  assumes "backend \<notin> {''numpy'', ''cupy'', ''jax''}"
  shows "set_backend env st backend =
           (Inl (ValueError (''Backend '' @ backend @ '' not supported, should be in numpy, cupy, jax'')), st)"
  using assms by (simp add: set_backend_def supported_iff join_supported)

text \<open>Claim C4 at \<^verbatim>\<open>set_backend("torch")\<close> in a fresh process.\<close>

theorem set_backend_unsupported_witness:
  "set_backend (\<lambda>name. Loads) initial_registry ''torch'' =
     (Inl (ValueError ''Backend torch not supported, should be in numpy, cupy, jax''), initial_registry)"
proof -
  have h: "''torch'' \<notin> {''numpy'', ''cupy'', ''jax''}" by simp
  from set_backend_unsupported [OF h, of "\<lambda>name. Loads" initial_registry]
  show ?thesis by simp
qed

lemma packages_of_simps:
  "packages_of ''numpy'' = [''numpy'']"
  "packages_of ''cupy'' = [''cupy'']"
  "packages_of ''jax'' = [''jax'']"
  "packages_of ''jax.numpy'' = [''jax'', ''jax.numpy'']"
  by (simp_all add: packages_of_def)

lemma import_module_fst: "fst (import_module env name st) = (case import_result env name of Some e \<Rightarrow> Inl e | None \<Rightarrow> Inr name)"
  by (simp add: import_module_def Let_def split: option.splits)

lemma import_module_fails:
  "import_result env name = Some e \<Longrightarrow> import_module env name st = (Inl e, st\<lparr>import_log := import_log st @ [name]\<rparr>)"
  by (simp add: import_module_def Let_def)

lemma import_module_loads:
  "import_result env name = None \<Longrightarrow> import_module env name st = (Inr name, st\<lparr>import_log := import_log st @ [name]\<rparr>)"
  by (simp add: import_module_def Let_def)

lemma import_xp_scs_fails:
  assumes "np_module backend = Some np" "import_result env np = Some e"
  shows "fst (import_xp_scs env backend st) = Inl (reraise backend e)"
  using assms by (simp add: import_xp_scs_def import_module_fails)

lemma set_backend_import_fail:
  assumes "backend \<in> set SUPPORTED_BACKENDS" "backend \<noteq> current_backend st"
    and "(if backend = ''jax'' then enable_x64 env st else (Inr (), st)) = (Inr (), st1)"
    and "fst (import_xp_scs env backend st1) = Inl e"
  shows "fst (set_backend env st backend) = Inl e"
proof -
  obtain st2 where "import_xp_scs env backend st1 = (Inl e, st2)"
    using assms(4) by (cases "import_xp_scs env backend st1") auto
  then show ?thesis
    unfolding set_backend_def using assms(1,2,3) by simp
qed

lemma set_backend_enable_fail:
  assumes "''jax'' \<noteq> current_backend st" "import_result env ''jax'' = Some e"
  shows "fst (set_backend env st ''jax'') = Inl e"
proof -
  have "''jax'' \<in> set SUPPORTED_BACKENDS" by (simp add: SUPPORTED_BACKENDS_def)
  moreover have "enable_x64 env st = (Inl e, st\<lparr>import_log := import_log st @ [''jax'']\<rparr>)"
    using assms(2) by (simp add: enable_x64_def import_module_fails)
  ultimately show ?thesis unfolding set_backend_def using assms(1) by simp
qed

lemma set_backend_plain:
  assumes "backend \<in> {''numpy'', ''cupy''}" "backend \<noteq> current_backend st"
    "np_module backend = Some np" "import_result env np = Some e"
  shows "fst (set_backend env st backend) = Inl (reraise backend e)"
proof -
  have a: "backend \<in> set SUPPORTED_BACKENDS" using assms(1) by (auto simp: SUPPORTED_BACKENDS_def)
  have b: "(if backend = ''jax'' then enable_x64 env st else (Inr (), st)) = (Inr (), st)"
    using assms(1) by auto
  have c: "fst (import_xp_scs env backend st) = Inl (reraise backend e)"
    using assms(3,4) by (rule import_xp_scs_fails)
  show ?thesis using a assms(2) b c by (rule set_backend_import_fail)
qed

lemma set_backend_jax:
  assumes "''jax'' \<noteq> current_backend st" "import_result env ''jax.numpy'' = Some e"
  shows "fst (set_backend env st ''jax'') =
           Inl (if import_result env ''jax'' \<noteq> None then e else reraise ''jax'' e)"
proof (cases "import_result env ''jax''")
  case None
  have np: "np_module ''jax'' = Some ''jax.numpy''" by (simp add: np_module_def)
  define st1 where "st1 = st\<lparr>import_log := import_log st @ [''jax''], jax_enable_x64 := True\<rparr>"
  have a: "''jax'' \<in> set SUPPORTED_BACKENDS" by (simp add: SUPPORTED_BACKENDS_def)
  have b: "(if ''jax'' = ''jax'' then enable_x64 env st else (Inr (), st)) = (Inr (), st1)"
    using None by (simp add: enable_x64_def import_module_loads st1_def)
  have c: "fst (import_xp_scs env ''jax'' st1) = Inl (reraise ''jax'' e)"
    using np assms(2) by (rule import_xp_scs_fails)
  have "fst (set_backend env st ''jax'') = Inl (reraise ''jax'' e)"
    using a assms(1) b c by (rule set_backend_import_fail)
  then show ?thesis using None by simp
next
  case (Some e')
  then have "outcome ''jax'' (env ''jax'') = Some e'"
    by (simp add: import_result_def packages_of_simps split: option.splits)
  then have "e = e'" using assms(2)
    by (simp add: import_result_def packages_of_simps)
  then show ?thesis using set_backend_enable_fail [OF assms(1)] Some by simp
qed

text \<open>
  Claim C5, amended. \<^verbatim>\<open>set_backend\<close> sorts a failing import of the array module by the
  class of its exception. For a supported backend that is not the active one: when the
  import raises \<^verbatim>\<open>ModuleNotFoundError\<close> (the backend is absent, or it is installed and a
  module it needs is absent), \<^verbatim>\<open>set_backend\<close> raises \<^verbatim>\<open>ModuleNotFoundError\<close>; when it
  raises another \<^verbatim>\<open>ImportError\<close>, \<^verbatim>\<open>set_backend\<close> raises \<^verbatim>\<open>ImportError\<close>. The two are
  different exception classes for all three backends. The message is the one of the
  \<^verbatim>\<open>except\<close> clause, except for jax when the package \<^verbatim>\<open>jax\<close> itself fails to load:
  then \<^verbatim>\<open>from jax import config\<close>, which stands before the \<^verbatim>\<open>try\<close>, raises first and
  the interpreter's own message \<open>m\<close> is kept. In general the exception \<open>e\<close> of the import
  leaves \<^verbatim>\<open>set_backend\<close> as \<open>reraise backend e\<close>: an exception of a third class is
  passed on unchanged.
\<close>

theorem set_backend_environment_errors:
  assumes "backend \<in> set SUPPORTED_BACKENDS" "backend \<noteq> current_backend st"
    and "np_module backend = Some np"
  shows "(import_result env np = Some (ModuleNotFoundError m) \<longrightarrow>
            fst (set_backend env st backend) =
              Inl (ModuleNotFoundError
                    (if backend = ''jax'' \<and> import_result env ''jax'' \<noteq> None then m
                     else backend @ '' not installed'')))
       \<and> (import_result env np = Some (ImportError m) \<longrightarrow>
            fst (set_backend env st backend) =
              Inl (ImportError
                    (if backend = ''jax'' \<and> import_result env ''jax'' \<noteq> None then m
                     else backend @ '' installed but not importable'')))
       \<and> (import_result env np = Some e \<longrightarrow>
            fst (set_backend env st backend) =
              Inl (if backend = ''jax'' \<and> import_result env ''jax'' \<noteq> None then e
                   else reraise backend e))"
proof (cases "backend = ''jax''")
  case True
  then have np: "np = ''jax.numpy''" using assms(3) by (simp add: np_module_def)
  have cur: "''jax'' \<noteq> current_backend st" using assms(2) True by simp
  show ?thesis
    unfolding True np using set_backend_jax [OF cur, of env] by auto
next
  case False
  then have "backend \<in> {''numpy'', ''cupy''}" using assms(1) by (auto simp: SUPPORTED_BACKENDS_def)
  then show ?thesis
    using set_backend_plain [OF _ assms(2,3), of env] False by auto
qed

text \<open>
  Claim C5 (amended) in three environments: cupy is absent; jax loads but \<^verbatim>\<open>jax.numpy\<close>
  raises an \<^verbatim>\<open>ImportError\<close>; the import of numpy raises an exception of a third class.
\<close>

theorem set_backend_environment_errors_witness:
  "fst (set_backend (\<lambda>n. if n = ''cupy'' then Absent else Loads)
          initial_registry ''cupy'') = Inl (ModuleNotFoundError ''cupy not installed'')
   \<and> fst (set_backend (\<lambda>n. if n = ''jax.numpy'' then Raises (ImportError ''cannot import name xla'') else Loads)
          initial_registry ''jax'') = Inl (ImportError ''jax installed but not importable'')
   \<and> fst (set_backend (\<lambda>n. if n = ''numpy'' then Raises (OtherError ''RuntimeError'') else Loads)
          initial_registry ''numpy'') = Inl (OtherError ''RuntimeError'')"
proof -
  let ?env3 = "\<lambda>n. if n = ''numpy'' then Raises (OtherError ''RuntimeError'') else Loads"
  have s3: "''numpy'' \<in> set SUPPORTED_BACKENDS" by (simp add: SUPPORTED_BACKENDS_def)
  have c3: "''numpy'' \<noteq> current_backend initial_registry" by (simp add: initial_registry_def)
  have n3: "np_module ''numpy'' = Some ''numpy''" by (simp add: np_module_def)
  have r4: "import_result ?env3 ''numpy'' = Some (OtherError ''RuntimeError'')"
    by (simp add: import_result_def packages_of_simps)
  from set_backend_environment_errors [where env = ?env3 and e = "OtherError ''RuntimeError''",
      OF s3 c3 n3] r4
  have c: "fst (set_backend ?env3 initial_registry ''numpy'') = Inl (OtherError ''RuntimeError'')"
    by simp
  let ?env1 = "\<lambda>n. if n = ''cupy'' then Absent else Loads"
  let ?env2 = "\<lambda>n. if n = ''jax.numpy'' then Raises (ImportError ''cannot import name xla'') else Loads"
  have s1: "''cupy'' \<in> set SUPPORTED_BACKENDS" and s2: "''jax'' \<in> set SUPPORTED_BACKENDS"
    by (simp_all add: SUPPORTED_BACKENDS_def)
  have c1: "''cupy'' \<noteq> current_backend initial_registry"
    and c2: "''jax'' \<noteq> current_backend initial_registry"
    by (simp_all add: initial_registry_def)
  have n1: "np_module ''cupy'' = Some ''cupy''" and n2: "np_module ''jax'' = Some ''jax.numpy''"
    by (simp_all add: np_module_def)
  have r1: "import_result ?env1 ''cupy'' = Some (ModuleNotFoundError ''No module named cupy'')"
    by (simp add: import_result_def packages_of_simps)
  have r2: "import_result ?env2 ''jax.numpy'' = Some (ImportError ''cannot import name xla'')"
    and r3: "import_result ?env2 ''jax'' = None"
    by (simp_all add: import_result_def packages_of_simps)
  from set_backend_environment_errors [OF s1 c1 n1, of ?env1 "''No module named cupy''"] r1
  have a: "fst (set_backend ?env1 initial_registry ''cupy'') = Inl (ModuleNotFoundError ''cupy not installed'')"
    by simp
  from set_backend_environment_errors [OF s2 c2 n2, of ?env2 "''cannot import name xla''"] r2 r3
  have b: "fst (set_backend ?env2 initial_registry ''jax'') = Inl (ImportError ''jax installed but not importable'')"
    by simp
  from a b c show ?thesis by (intro conjI)
qed

text \<open>
  Claim C5 as stated fails where an installed backend breaks in another way than by an
  \<^verbatim>\<open>ImportError\<close> of its own. cupy is installed and its import raises
  \<^verbatim>\<open>ModuleNotFoundError\<close> for a missing dependency: \<^verbatim>\<open>set_backend("cupy")\<close> raises
  \<^verbatim>\<open>ModuleNotFoundError("cupy not installed")\<close>, the very exception it raises when cupy is
  absent, so the caller cannot tell the two apart. And when the import raises an
  exception of another class, that exception leaves \<^verbatim>\<open>set_backend\<close> as it is.
\<close>

theorem set_backend_broken_backend_counterexample:
  "fst (set_backend
          (\<lambda>n. if n = ''cupy'' then Raises (ModuleNotFoundError ''No module named fastrlock'') else Loads)
          initial_registry ''cupy'') = Inl (ModuleNotFoundError ''cupy not installed'')
   \<and> fst (set_backend (\<lambda>n. if n = ''cupy'' then Absent else Loads) initial_registry ''cupy'')
       = Inl (ModuleNotFoundError ''cupy not installed'')
   \<and> fst (set_backend (\<lambda>n. if n = ''cupy'' then Raises (OtherError ''RuntimeError'') else Loads)
          initial_registry ''cupy'') = Inl (OtherError ''RuntimeError'')"
proof -
  let ?dep = "\<lambda>n. if n = ''cupy'' then Raises (ModuleNotFoundError ''No module named fastrlock'') else Loads"
  let ?absent = "\<lambda>n. if n = ''cupy'' then Absent else Loads"
  let ?other = "\<lambda>n. if n = ''cupy'' then Raises (OtherError ''RuntimeError'') else Loads"
  have b: "''cupy'' \<in> {''numpy'', ''cupy''}" by simp
  have c: "''cupy'' \<noteq> current_backend initial_registry" by (simp add: initial_registry_def)
  have n: "np_module ''cupy'' = Some ''cupy''" by (simp add: np_module_def)
  have r1: "import_result ?dep ''cupy'' = Some (ModuleNotFoundError ''No module named fastrlock'')"
    and r2: "import_result ?absent ''cupy'' = Some (ModuleNotFoundError ''No module named cupy'')"
    and r3: "import_result ?other ''cupy'' = Some (OtherError ''RuntimeError'')"
    by (simp_all add: import_result_def packages_of_simps)
  from set_backend_plain [OF b c n r1] set_backend_plain [OF b c n r2] set_backend_plain [OF b c n r3]
  show ?thesis by simp
qed

lemma import_module_rest:
  "import_module env name st = (r, st') \<Longrightarrow>
     current_backend st' = current_backend st \<and> bindings st' = bindings st"
  by (auto simp: import_module_def Let_def split: option.splits)

lemma import_module_Inr: "import_module env name st = (Inr md, st') \<Longrightarrow> md = name"
  by (auto simp: import_module_def Let_def split: option.splits)

lemma rebind_xp_keeps:
  "rebind_xp env backend xp ms st = (r, st') \<Longrightarrow> bindings st k = Some xp \<Longrightarrow> bindings st' k = Some xp"
proof (induction ms arbitrary: st)
  case Nil
  then show ?case by simp
next
  case (Cons m ms)
  obtain r1 st1 where i: "import_module env (''gwpopulation.'' @ m) (st\<lparr>current_backend := backend\<rparr>) = (r1, st1)"
    by (cases "import_module env (''gwpopulation.'' @ m) (st\<lparr>current_backend := backend\<rparr>)")
  then have b: "bindings st1 = bindings st" using import_module_rest [OF i] by simp
  show ?case
  proof (cases r1)
    case (Inl e)
    then show ?thesis using Cons.prems i b by simp
  next
    case (Inr md)
    then have "rebind_xp env backend xp ms (st1\<lparr>bindings := (bindings st1)((md, ''xp'') \<mapsto> xp)\<rparr>) = (r, st')"
      using Cons.prems(1) i by simp
    moreover have "bindings (st1\<lparr>bindings := (bindings st1)((md, ''xp'') \<mapsto> xp)\<rparr>) k = Some xp"
      using Cons.prems(2) b by simp
    ultimately show ?thesis by (rule Cons.IH)
  qed
qed

lemma rebind_xp_done:
  "rebind_xp env backend xp ms st = (Inr u, st') \<Longrightarrow>
     (\<forall>m\<in>set ms. bindings st' (''gwpopulation.'' @ m, ''xp'') = Some xp)
     \<and> (ms \<noteq> [] \<longrightarrow> current_backend st' = backend)"
proof (induction ms arbitrary: st)
  case Nil
  then show ?case by simp
next
  case (Cons m ms)
  obtain r1 st1 where i: "import_module env (''gwpopulation.'' @ m) (st\<lparr>current_backend := backend\<rparr>) = (r1, st1)"
    by (cases "import_module env (''gwpopulation.'' @ m) (st\<lparr>current_backend := backend\<rparr>)")
  have c: "current_backend st1 = backend" using import_module_rest [OF i] by simp
  show ?case
  proof (cases r1)
    case (Inl e)
    then show ?thesis using Cons.prems i by simp
  next
    case (Inr md)
    then have md: "md = ''gwpopulation.'' @ m" using i import_module_Inr by blast
    define st2 where "st2 = st1\<lparr>bindings := (bindings st1)((md, ''xp'') \<mapsto> xp)\<rparr>"
    have rest: "rebind_xp env backend xp ms st2 = (Inr u, st')"
      using Cons.prems i Inr by (simp add: st2_def)
    have here: "bindings st' (''gwpopulation.'' @ m, ''xp'') = Some xp"
      using rest by (rule rebind_xp_keeps) (simp add: st2_def md)
    have cur: "current_backend st' = backend"
    proof (cases ms)
      case Nil
      then have "st' = st2" using rest by simp
      then show ?thesis using c by (simp add: st2_def)
    next
      case (Cons a as)
      then show ?thesis using Cons.IH [OF rest] by simp
    qed
    show ?thesis using Cons.IH [OF rest] here cur by simp
  qed
qed

lemma rebind_scs_keeps:
  "rebind_scs env scs ms st = (r, st') \<Longrightarrow>
     current_backend st' = current_backend st
     \<and> (\<forall>k. (snd k \<noteq> ''scs'' \<or> bindings st k = Some scs) \<longrightarrow> (snd k \<noteq> ''scs'' \<longrightarrow> bindings st' k = bindings st k) \<and> (bindings st k = Some scs \<longrightarrow> bindings st' k = Some scs))"
proof (induction ms arbitrary: st)
  case Nil
  then show ?case by simp
next
  case (Cons m ms)
  obtain r1 st1 where i: "import_module env (''gwpopulation.'' @ m) st = (r1, st1)"
    by (cases "import_module env (''gwpopulation.'' @ m) st")
  note keep = import_module_rest [OF i]
  show ?case
  proof (cases r1)
    case (Inl e)
    then show ?thesis using Cons.prems i keep by auto
  next
    case (Inr md)
    define st2 where "st2 = st1\<lparr>bindings := (bindings st1)((md, ''scs'') \<mapsto> scs)\<rparr>"
    have rest: "rebind_scs env scs ms st2 = (r, st')"
      using Cons.prems i Inr by (simp add: st2_def)
    show ?thesis using Cons.IH [OF rest] keep by (auto simp: st2_def)
  qed
qed

lemma rebind_scs_done:
  "rebind_scs env scs ms st = (Inr u, st') \<Longrightarrow>
     (\<forall>m\<in>set ms. bindings st' (''gwpopulation.'' @ m, ''scs'') = Some scs)"
proof (induction ms arbitrary: st)
  case Nil
  then show ?case by simp
next
  case (Cons m ms)
  obtain r1 st1 where i: "import_module env (''gwpopulation.'' @ m) st = (r1, st1)"
    by (cases "import_module env (''gwpopulation.'' @ m) st")
  show ?case
  proof (cases r1)
    case (Inl e)
    then show ?thesis using Cons.prems i by simp
  next
    case (Inr md)
    then have md: "md = ''gwpopulation.'' @ m" using i import_module_Inr by blast
    define st2 where "st2 = st1\<lparr>bindings := (bindings st1)((md, ''scs'') \<mapsto> scs)\<rparr>"
    have rest: "rebind_scs env scs ms st2 = (Inr u, st')"
      using Cons.prems i Inr by (simp add: st2_def)
    have "bindings st2 (''gwpopulation.'' @ m, ''scs'') = Some scs" by (simp add: st2_def md)
    then have here: "bindings st' (''gwpopulation.'' @ m, ''scs'') = Some scs"
      using rebind_scs_keeps [OF rest] by blast
    show ?thesis using Cons.IH [OF rest] here by simp
  qed
qed

lemma import_xp_scs_Inr:
  assumes "import_xp_scs env backend st = (Inr (xp, scs), st')"
  shows "np_module backend = Some xp
         \<and> (\<exists>sp. scipy_module backend = Some sp \<and> scs = sp @ ''.special'')"
proof -
  obtain np where np: "np_module backend = Some np"
    using assms by (cases "np_module backend") (auto simp: import_xp_scs_def)
  obtain r1 st1 where i1: "import_module env np st = (r1, st1)" by (cases "import_module env np st")
  obtain x where r1: "r1 = Inr x"
    using assms np i1 by (cases r1) (auto simp: import_xp_scs_def)
  have x: "x = np" using i1 r1 import_module_Inr by blast
  obtain sp where sp: "scipy_module backend = Some sp"
    using assms np i1 r1 by (cases "scipy_module backend") (auto simp: import_xp_scs_def)
  obtain r2 st2 where i2: "import_module env sp st1 = (r2, st2)" by (cases "import_module env sp st1")
  obtain y where r2: "r2 = Inr y"
    using assms np i1 r1 sp i2 by (cases r2) (auto simp: import_xp_scs_def)
  have y: "y = sp" using i2 r2 import_module_Inr by blast
  have "xp = np \<and> scs = sp @ ''.special''"
    using assms np i1 r1 sp i2 r2 x y by (simp add: import_xp_scs_def)
  then show ?thesis using np sp by simp
qed

text \<open>What the steps of \<^verbatim>\<open>set_backend\<close> leave alone.\<close>

lemma rebind_xp_frame:
  "rebind_xp env backend xp ms st = (r, st') \<Longrightarrow>
     k \<notin> (\<lambda>m. (''gwpopulation.'' @ m, ''xp'')) ` set ms \<Longrightarrow> bindings st' k = bindings st k"
proof (induction ms arbitrary: st)
  case Nil
  then show ?case by simp
next
  case (Cons m ms)
  obtain r1 st1 where i: "import_module env (''gwpopulation.'' @ m) (st\<lparr>current_backend := backend\<rparr>) = (r1, st1)"
    by (cases "import_module env (''gwpopulation.'' @ m) (st\<lparr>current_backend := backend\<rparr>)")
  then have b: "bindings st1 = bindings st" using import_module_rest [OF i] by simp
  show ?case
  proof (cases r1)
    case (Inl e)
    then show ?thesis using Cons.prems i b by simp
  next
    case (Inr md)
    then have md: "md = ''gwpopulation.'' @ m" using i import_module_Inr by blast
    define st2 where "st2 = st1\<lparr>bindings := (bindings st1)((md, ''xp'') \<mapsto> xp)\<rparr>"
    have rest: "rebind_xp env backend xp ms st2 = (r, st')"
      using Cons.prems(1) i Inr by (simp add: st2_def)
    have "k \<notin> (\<lambda>m. (''gwpopulation.'' @ m, ''xp'')) ` set ms" using Cons.prems(2) by auto
    with rest have "bindings st' k = bindings st2 k" by (rule Cons.IH)
    moreover have "k \<noteq> (md, ''xp'')" using Cons.prems(2) md by auto
    ultimately show ?thesis using b by (simp add: st2_def)
  qed
qed

lemma rebind_scs_frame:
  "rebind_scs env scs ms st = (r, st') \<Longrightarrow>
     k \<notin> (\<lambda>m. (''gwpopulation.'' @ m, ''scs'')) ` set ms \<Longrightarrow> bindings st' k = bindings st k"
proof (induction ms arbitrary: st)
  case Nil
  then show ?case by simp
next
  case (Cons m ms)
  obtain r1 st1 where i: "import_module env (''gwpopulation.'' @ m) st = (r1, st1)"
    by (cases "import_module env (''gwpopulation.'' @ m) st")
  then have b: "bindings st1 = bindings st" using import_module_rest [OF i] by simp
  show ?case
  proof (cases r1)
    case (Inl e)
    then show ?thesis using Cons.prems i b by simp
  next
    case (Inr md)
    then have md: "md = ''gwpopulation.'' @ m" using i import_module_Inr by blast
    define st2 where "st2 = st1\<lparr>bindings := (bindings st1)((md, ''scs'') \<mapsto> scs)\<rparr>"
    have rest: "rebind_scs env scs ms st2 = (r, st')"
      using Cons.prems(1) i Inr by (simp add: st2_def)
    have "k \<notin> (\<lambda>m. (''gwpopulation.'' @ m, ''scs'')) ` set ms" using Cons.prems(2) by auto
    with rest have "bindings st' k = bindings st2 k" by (rule Cons.IH)
    moreover have "k \<noteq> (md, ''scs'')" using Cons.prems(2) md by auto
    ultimately show ?thesis using b by (simp add: st2_def)
  qed
qed

lemma enable_x64_frame: "enable_x64 env st = (r, st') \<Longrightarrow> bindings st' = bindings st"
  by (auto simp: enable_x64_def import_module_def Let_def split: option.splits)

lemma import_xp_scs_frame: "import_xp_scs env backend st = (r, st') \<Longrightarrow> bindings st' = bindings st"
  by (auto simp: import_xp_scs_def import_module_def Let_def split: option.splits)

lemma alias_trapz_frame:
  "alias_trapz env xp st = (r, st') \<Longrightarrow> k \<noteq> (xp, ''trapz'') \<Longrightarrow> bindings st' k = bindings st k"
  by (auto simp: alias_trapz_def import_module_def Let_def split: option.splits if_splits)


lemma set_backend_steps:
  assumes ok: "set_backend env st backend = (Inr (), st')"
    and new: "backend \<noteq> current_backend st"
  shows "\<exists>xp scs st3 st4.
           np_module backend = Some xp
         \<and> (\<exists>sp. scipy_module backend = Some sp \<and> scs = sp @ ''.special'')
         \<and> (\<forall>k. k \<noteq> (xp, ''trapz'') \<longrightarrow> bindings st3 k = bindings st k)
         \<and> rebind_xp env backend xp all_with_xp st3 = (Inr (), st4)
         \<and> rebind_scs env scs all_with_scs st4 = (Inr (), st')"
proof -
  have sup: "backend \<in> set SUPPORTED_BACKENDS"
    using ok by (auto simp: set_backend_def split: if_splits)
  obtain r1 st1 where s1: "(if backend = ''jax'' then enable_x64 env st else (Inr (), st)) = (r1, st1)"
    by (cases "if backend = ''jax'' then enable_x64 env st else (Inr (), st)")
  have r1: "r1 = Inr ()"
    using ok sup new s1 by (cases r1) (simp_all add: set_backend_def)
  have b1: "bindings st1 = bindings st"
    using s1 enable_x64_frame [of env st r1 st1] by (auto split: if_splits)
  obtain r2 st2 where s2: "import_xp_scs env backend st1 = (r2, st2)"
    by (cases "import_xp_scs env backend st1")
  obtain xp scs where r2: "r2 = Inr (xp, scs)"
    using ok sup new s1 r1 s2 by (cases r2) (auto simp: set_backend_def)
  have b2: "bindings st2 = bindings st1" using s2 by (rule import_xp_scs_frame)
  obtain r3 st3 where s3: "(if backend = ''jax'' then alias_trapz env xp st2 else (Inr (), st2)) = (r3, st3)"
    by (cases "if backend = ''jax'' then alias_trapz env xp st2 else (Inr (), st2)")
  have r3: "r3 = Inr ()"
    using ok sup new s1 r1 s2 r2 s3 by (cases r3) (simp_all add: set_backend_def)
  have b3: "bindings st3 k = bindings st2 k" if "k \<noteq> (xp, ''trapz'')" for k
    using s3 alias_trapz_frame [of env xp st2 r3 st3 k] that by (auto split: if_splits)
  obtain r4 st4 where s4: "rebind_xp env backend xp all_with_xp st3 = (r4, st4)"
    by (cases "rebind_xp env backend xp all_with_xp st3")
  have r4: "r4 = Inr ()"
    using ok sup new s1 r1 s2 r2 s3 r3 s4 by (cases r4) (simp_all add: set_backend_def)
  have s5: "rebind_scs env scs all_with_scs st4 = (Inr (), st')"
    using ok sup new s1 r1 s2 r2 s3 r3 s4 r4 by (simp add: set_backend_def)
  have fr: "\<forall>k. k \<noteq> (xp, ''trapz'') \<longrightarrow> bindings st3 k = bindings st k"
    using b1 b2 b3 by simp
  from import_xp_scs_Inr [OF s2 [unfolded r2]] fr s4 [unfolded r4] s5
  show ?thesis by blast
qed

lemma np_module_not_package: "np_module backend = Some xp \<Longrightarrow> ''gwpopulation.'' @ m \<noteq> xp"
  by (auto simp: np_module_def split: if_splits)

lemma set_backend_bound:
  assumes ok: "set_backend env st backend = (Inr (), st')"
    and new: "backend \<noteq> current_backend st"
  shows "np_module backend \<noteq> None"
    and "\<forall>m\<in>set all_with_xp. global_of st' m ''xp'' = np_module backend"
    and "\<forall>m\<in>set all_with_scs.
          global_of st' m ''scs'' = map_option (\<lambda>s. s @ ''.special'') (scipy_module backend)"
    and "current_backend st' = backend"
proof -
  obtain xp scs sp st3 st4 where
      np: "np_module backend = Some xp" and sp: "scipy_module backend = Some sp" "scs = sp @ ''.special''"
      and x: "rebind_xp env backend xp all_with_xp st3 = (Inr (), st4)"
      and y: "rebind_scs env scs all_with_scs st4 = (Inr (), st')"
    using set_backend_steps [OF ok new] by blast
  have xs: "\<forall>m\<in>set all_with_xp. bindings st4 (''gwpopulation.'' @ m, ''xp'') = Some xp"
    and cur: "current_backend st4 = backend"
    using rebind_xp_done [OF x] by (simp_all add: all_with_xp_def)
  have k: "bindings st' k = bindings st4 k" if "snd k \<noteq> ''scs''" for k
    using rebind_scs_keeps [OF y] that by blast
  show "np_module backend \<noteq> None" using np by simp
  show "\<forall>m\<in>set all_with_xp. global_of st' m ''xp'' = np_module backend"
    using xs k np by (simp add: global_of_def)
  show "\<forall>m\<in>set all_with_scs.
          global_of st' m ''scs'' = map_option (\<lambda>s. s @ ''.special'') (scipy_module backend)"
    using rebind_scs_done [OF y] sp by (simp add: global_of_def)
  show "current_backend st' = backend"
    using rebind_scs_keeps [OF y] cur by simp
qed

lemma set_backend_frame:
  assumes ok: "set_backend env st backend = (Inr (), st')"
    and new: "backend \<noteq> current_backend st"
    and other: "\<not> (a = ''xp'' \<and> m \<in> set all_with_xp)" "\<not> (a = ''scs'' \<and> m \<in> set all_with_scs)"
  shows "global_of st' m a = global_of st m a"
proof -
  let ?k = "(''gwpopulation.'' @ m, a)"
  obtain xp scs st3 st4 where
      np: "np_module backend = Some xp"
      and fr: "\<forall>k. k \<noteq> (xp, ''trapz'') \<longrightarrow> bindings st3 k = bindings st k"
      and x: "rebind_xp env backend xp all_with_xp st3 = (Inr (), st4)"
      and y: "rebind_scs env scs all_with_scs st4 = (Inr (), st')"
    using set_backend_steps [OF ok new] by blast
  have "?k \<noteq> (xp, ''trapz'')" using np_module_not_package [OF np] by simp
  then have a: "bindings st3 ?k = bindings st ?k" using fr by blast
  have "?k \<notin> (\<lambda>m. (''gwpopulation.'' @ m, ''xp'')) ` set all_with_xp" using other(1) by auto
  with x have b: "bindings st4 ?k = bindings st3 ?k" by (rule rebind_xp_frame)
  have "?k \<notin> (\<lambda>m. (''gwpopulation.'' @ m, ''scs'')) ` set all_with_scs" using other(2) by auto
  with y have c: "bindings st' ?k = bindings st4 ?k" by (rule rebind_scs_frame)
  show ?thesis using a b c by (simp add: global_of_def)
qed

lemma all_with_xp_set:
  "set all_with_xp = {''hyperpe'', ''models.interped'', ''models.mass'', ''models.redshift'',
      ''models.spin'', ''utils'', ''vt''}"
  by (simp add: all_with_xp_def)

lemma all_with_scs_set: "set all_with_scs = {''models.mass'', ''utils''}"
  by (simp add: all_with_scs_def)

lemma redshift_xp_after:
  assumes ok: "set_backend env st backend = (Inr (), st')"
    and new: "backend \<noteq> current_backend st"
  shows "redshift_xp st' = np_module backend"
  using set_backend_bound(2) [OF ok new] by (simp add: redshift_xp_def all_with_xp_def)

lemma first_error_none: "first_error (\<lambda>n. Loads) ns = None"
  by (induction ns) auto

lemma import_result_none: "import_result (\<lambda>n. Loads) name = None"
  by (simp add: import_result_def first_error_none)

lemma rebind_xp_loads: "fst (rebind_xp (\<lambda>n. Loads) backend xp ms st) = Inr ()"
  by (induction ms arbitrary: st) (simp_all add: import_module_loads import_result_none)

lemma rebind_scs_loads: "fst (rebind_scs (\<lambda>n. Loads) scs ms st) = Inr ()"
  by (induction ms arbitrary: st) (simp_all add: import_module_loads import_result_none)

lemma set_backend_loads:
  assumes b: "backend \<in> {''numpy'', ''cupy''}" and new: "current_backend st \<noteq> backend"
  shows "fst (set_backend (\<lambda>n. Loads) st backend) = Inr ()"
proof -
  let ?env = "\<lambda>n::string. Loads"
  obtain xp sp where np: "np_module backend = Some xp" and sp: "scipy_module backend = Some sp"
    using b by (auto simp: np_module_def scipy_module_def)
  define st2 where "st2 = st\<lparr>import_log := import_log st @ [xp] @ [sp]\<rparr>"
  have i: "import_xp_scs ?env backend st = (Inr (xp, sp @ ''.special''), st2)"
    by (simp add: import_xp_scs_def np sp import_module_loads import_result_none st2_def)
  obtain r4 st4 where x: "rebind_xp ?env backend xp all_with_xp st2 = (r4, st4)"
    by (cases "rebind_xp ?env backend xp all_with_xp st2")
  have r4: "r4 = Inr ()" using rebind_xp_loads [of backend xp all_with_xp st2] x by simp
  have j: "backend \<noteq> ''jax''" and s: "backend \<in> set SUPPORTED_BACKENDS"
    using b by (auto simp: SUPPORTED_BACKENDS_def)
  have "set_backend ?env st backend = rebind_scs ?env (sp @ ''.special'') all_with_scs st4"
    using new i x r4 j s by (simp add: set_backend_def)
  then show ?thesis by (simp add: rebind_scs_loads)
qed


text \<open>
  Claim C6, amended. When \<^verbatim>\<open>set_backend(name)\<close> returns normally for a name that was not the
  active backend, then in the new state the global \<^verbatim>\<open>xp\<close> of \<^verbatim>\<open>hyperpe\<close>,
  \<^verbatim>\<open>models.interped\<close>, \<^verbatim>\<open>models.mass\<close>, \<^verbatim>\<open>models.redshift\<close>, \<^verbatim>\<open>models.spin\<close>, \<^verbatim>\<open>utils\<close>
  and \<^verbatim>\<open>vt\<close> is the array module of that backend, the global \<^verbatim>\<open>scs\<close> of \<^verbatim>\<open>models.mass\<close> and
  \<^verbatim>\<open>utils\<close> is the \<^verbatim>\<open>special\<close> submodule of the backend's scipy, and \<^verbatim>\<open>__backend__\<close> is the
  name. No other attribute of a module of the package changes: not \<^verbatim>\<open>xp\<close> of
  \<^verbatim>\<open>cupy_utils\<close>, and not the names \<^verbatim>\<open>trapz\<close> and \<^verbatim>\<open>to_numpy\<close> that \<^verbatim>\<open>models.redshift\<close> took
  from it. The bindings are attributes of the module objects, so code of the seven
  modules, methods of instances built earlier included, reads the new module at its next
  evaluation of \<^verbatim>\<open>xp\<close>: an array that \<^verbatim>\<open>_cache_dvc_dz\<close> stores from now on, and the arrays
  of an instance built from now on, are arrays of the new backend. An instance built
  earlier holds arrays of the new backend exactly when the arrays it converted at its
  construction already were arrays of that module. When the name is the active backend,
  the call returns with the state untouched.
\<close>

theorem set_backend_rebinds:
  "(backend \<noteq> current_backend st \<and> set_backend env st backend = (Inr (), st') \<longrightarrow>
      np_module backend \<noteq> None
    \<and> (\<forall>m\<in>{''hyperpe'', ''models.interped'', ''models.mass'', ''models.redshift'',
            ''models.spin'', ''utils'', ''vt''}.
          global_of st' m ''xp'' = np_module backend)
    \<and> (\<forall>m\<in>{''models.mass'', ''utils''}.
          global_of st' m ''scs'' = map_option (\<lambda>s. s @ ''.special'') (scipy_module backend))
    \<and> (\<forall>m a. \<not> (a = ''xp'' \<and> m \<in> {''hyperpe'', ''models.interped'', ''models.mass'',
                     ''models.redshift'', ''models.spin'', ''utils'', ''vt''})
             \<and> \<not> (a = ''scs'' \<and> m \<in> {''models.mass'', ''utils''})
             \<longrightarrow> global_of st' m a = global_of st m a)
    \<and> current_backend st' = backend
    \<and> cache_dvc_dz_xp st' = np_module backend
    \<and> init_xp st' = \<lparr>zs_xp = np_module backend, dvc_dz_xp = np_module backend\<rparr>
    \<and> (\<forall>inst. on_active_backend st' inst
          \<longleftrightarrow> zs_xp inst = np_module backend \<and> dvc_dz_xp inst = np_module backend))
   \<and> (backend = current_backend st \<and> backend \<in> set SUPPORTED_BACKENDS \<longrightarrow>
        set_backend env st backend = (Inr (), st))"
proof (intro conjI impI allI)
  assume a: "backend \<noteq> current_backend st \<and> set_backend env st backend = (Inr (), st')"
  then have new: "backend \<noteq> current_backend st" and ok: "set_backend env st backend = (Inr (), st')"
    by blast+
  note b = set_backend_bound [OF ok new]
  show "np_module backend \<noteq> None" by (rule b(1))
  show "\<forall>m\<in>{''hyperpe'', ''models.interped'', ''models.mass'', ''models.redshift'',
            ''models.spin'', ''utils'', ''vt''}.
          global_of st' m ''xp'' = np_module backend"
    using b(2) unfolding all_with_xp_set .
  show "\<forall>m\<in>{''models.mass'', ''utils''}.
          global_of st' m ''scs'' = map_option (\<lambda>s. s @ ''.special'') (scipy_module backend)"
    using b(3) unfolding all_with_scs_set .
  show "current_backend st' = backend" by (rule b(4))
  have r: "redshift_xp st' = np_module backend"
    using b(2) by (simp add: redshift_xp_def all_with_xp_def)
  show "cache_dvc_dz_xp st' = np_module backend" using r by (simp add: cache_dvc_dz_xp_def)
  show "init_xp st' = \<lparr>zs_xp = np_module backend, dvc_dz_xp = np_module backend\<rparr>"
    using r by (simp add: init_xp_def)
  show "on_active_backend st' inst
          \<longleftrightarrow> zs_xp inst = np_module backend \<and> dvc_dz_xp inst = np_module backend" for inst
    using r by (simp add: on_active_backend_def)
  show "global_of st' m a = global_of st m a"
    if "\<not> (a = ''xp'' \<and> m \<in> {''hyperpe'', ''models.interped'', ''models.mass'',
                     ''models.redshift'', ''models.spin'', ''utils'', ''vt''})
             \<and> \<not> (a = ''scs'' \<and> m \<in> {''models.mass'', ''utils''})" for m a
  proof -
    from that have p: "\<not> (a = ''xp'' \<and> m \<in> {''hyperpe'', ''models.interped'', ''models.mass'',
                     ''models.redshift'', ''models.spin'', ''utils'', ''vt''})"
      by (rule conjunct1)
    from that have q: "\<not> (a = ''scs'' \<and> m \<in> {''models.mass'', ''utils''})"
      by (rule conjunct2)
    have p': "\<not> (a = ''xp'' \<and> m \<in> set all_with_xp)" unfolding all_with_xp_set by (rule p)
    have q': "\<not> (a = ''scs'' \<and> m \<in> set all_with_scs)" unfolding all_with_scs_set by (rule q)
    from ok new p' q' show ?thesis by (rule set_backend_frame)
  qed
next
  assume "backend = current_backend st \<and> backend \<in> set SUPPORTED_BACKENDS"
  then have "backend = current_backend st" "backend \<in> set SUPPORTED_BACKENDS" by blast+
  then show "set_backend env st backend = (Inr (), st)"
    unfolding set_backend_def by simp
qed

text \<open>
  Claim C6 (amended) for \<^verbatim>\<open>set_backend("cupy")\<close> in a process where every import succeeds
  and \<^verbatim>\<open>cupy_utils\<close> holds numpy as its \<^verbatim>\<open>xp\<close>, and for the same call once cupy is active.
  After the call \<^verbatim>\<open>models.redshift\<close> reads cupy and \<^verbatim>\<open>cupy_utils\<close> still reads numpy.
\<close>

theorem set_backend_rebinds_witness:
  "global_of (snd (set_backend (\<lambda>n. Loads) imported_registry ''cupy'')) ''models.redshift'' ''xp''
     = Some ''cupy''
   \<and> global_of (snd (set_backend (\<lambda>n. Loads) imported_registry ''cupy'')) ''utils'' ''scs''
     = Some ''cupyx.scipy.special''
   \<and> global_of (snd (set_backend (\<lambda>n. Loads) imported_registry ''cupy'')) ''cupy_utils'' ''xp''
     = Some ''numpy''
   \<and> current_backend (snd (set_backend (\<lambda>n. Loads) imported_registry ''cupy'')) = ''cupy''
   \<and> cache_dvc_dz_xp (snd (set_backend (\<lambda>n. Loads) imported_registry ''cupy'')) = Some ''cupy''
   \<and> set_backend (\<lambda>n. Loads) (imported_registry\<lparr>current_backend := ''cupy''\<rparr>) ''cupy''
     = (Inr (), imported_registry\<lparr>current_backend := ''cupy''\<rparr>)"
proof -
  let ?env = "\<lambda>n::string. Loads"
  let ?st' = "snd (set_backend ?env imported_registry ''cupy'')"
  have new: "''cupy'' \<noteq> current_backend imported_registry"
    by (simp add: imported_registry_def initial_registry_def)
  have "fst (set_backend ?env imported_registry ''cupy'') = Inr ()"
    using new by (intro set_backend_loads) simp_all
  then have ok: "set_backend ?env imported_registry ''cupy'' = (Inr (), ?st')"
    by (metis prod.collapse)
  have np: "np_module ''cupy'' = Some ''cupy''"
    and sp: "scipy_module ''cupy'' = Some ''cupyx.scipy''"
    by (simp_all add: np_module_def scipy_module_def)
  have sup: "''cupy'' \<in> set SUPPORTED_BACKENDS" by (simp add: SUPPORTED_BACKENDS_def)
  have old: "global_of imported_registry ''cupy_utils'' ''xp'' = Some ''numpy''"
    by (simp add: global_of_def imported_registry_def)
  note t = set_backend_rebinds [of "''cupy''" imported_registry ?env ?st']
  from t new ok
  have a: "global_of ?st' ''models.redshift'' ''xp'' = np_module ''cupy''" by simp
  from t new ok
  have b: "global_of ?st' ''utils'' ''scs''
             = map_option (\<lambda>s. s @ ''.special'') (scipy_module ''cupy'')" by simp
  from t new ok
  have "\<forall>m a. \<not> (a = ''xp'' \<and> m \<in> {''hyperpe'', ''models.interped'', ''models.mass'',
                     ''models.redshift'', ''models.spin'', ''utils'', ''vt''})
             \<and> \<not> (a = ''scs'' \<and> m \<in> {''models.mass'', ''utils''})
             \<longrightarrow> global_of ?st' m a = global_of imported_registry m a" by simp
  then have c: "global_of ?st' ''cupy_utils'' ''xp'' = global_of imported_registry ''cupy_utils'' ''xp''"
    by simp
  from t new ok have d: "current_backend ?st' = ''cupy''" by simp
  from t new ok have e: "cache_dvc_dz_xp ?st' = np_module ''cupy''" by simp
  from set_backend_rebinds [of "''cupy''" "imported_registry\<lparr>current_backend := ''cupy''\<rparr>" ?env ?st'] sup
  have f: "set_backend ?env (imported_registry\<lparr>current_backend := ''cupy''\<rparr>) ''cupy''
     = (Inr (), imported_registry\<lparr>current_backend := ''cupy''\<rparr>)" by simp
  from a b c d e f np sp old show ?thesis by simp
qed

text \<open>
  Claim C6 as stated fails for an instance built before the switch. In a process where
  every import succeeds, \<^verbatim>\<open>set_backend("numpy")\<close> is called, a redshift model is built, and
  \<^verbatim>\<open>set_backend("cupy")\<close> is called and returns normally. The grid \<^verbatim>\<open>self.zs\<close> that
  \<^verbatim>\<open>normalisation\<close> reads at the next call is still the numpy array made by \<^verbatim>\<open>__init__\<close>,
  while \<^verbatim>\<open>xp\<close> in \<^verbatim>\<open>models.redshift\<close> now names cupy.
\<close>

theorem set_backend_earlier_instance_counterexample:
  "fst (set_backend (\<lambda>n. Loads) (snd (set_backend (\<lambda>n. Loads) initial_registry ''numpy'')) ''cupy'')
     = Inr ()
   \<and> zs_xp (init_xp (snd (set_backend (\<lambda>n. Loads) initial_registry ''numpy''))) = Some ''numpy''
   \<and> redshift_xp (snd (set_backend (\<lambda>n. Loads)
                         (snd (set_backend (\<lambda>n. Loads) initial_registry ''numpy'')) ''cupy''))
       = Some ''cupy''
   \<and> \<not> on_active_backend (snd (set_backend (\<lambda>n. Loads)
                         (snd (set_backend (\<lambda>n. Loads) initial_registry ''numpy'')) ''cupy''))
         (init_xp (snd (set_backend (\<lambda>n. Loads) initial_registry ''numpy'')))"
proof -
  let ?env = "\<lambda>n::string. Loads"
  define st1 where "st1 = snd (set_backend ?env initial_registry ''numpy'')"
  define st2 where "st2 = snd (set_backend ?env st1 ''cupy'')"
  have new1: "''numpy'' \<noteq> current_backend initial_registry" by (simp add: initial_registry_def)
  have "fst (set_backend ?env initial_registry ''numpy'') = Inr ()"
    using new1 by (intro set_backend_loads) simp_all
  then have ok1: "set_backend ?env initial_registry ''numpy'' = (Inr (), st1)"
    unfolding st1_def by (metis prod.collapse)
  have cur1: "current_backend st1 = ''numpy''" using set_backend_bound(4) [OF ok1 new1] .
  have x1: "redshift_xp st1 = Some ''numpy''"
    using redshift_xp_after [OF ok1 new1] by (simp add: np_module_def)
  have new2: "''cupy'' \<noteq> current_backend st1" using cur1 by simp
  have f2: "fst (set_backend ?env st1 ''cupy'') = Inr ()"
    using new2 by (intro set_backend_loads) simp_all
  then have ok2: "set_backend ?env st1 ''cupy'' = (Inr (), st2)"
    unfolding st2_def by (metis prod.collapse)
  have x2: "redshift_xp st2 = Some ''cupy''"
    using redshift_xp_after [OF ok2 new2] by (simp add: np_module_def)
  have z: "zs_xp (init_xp st1) = Some ''numpy''" using x1 by (simp add: init_xp_def)
  have "\<not> on_active_backend st2 (init_xp st1)" using z x2 by (simp add: on_active_backend_def)
  with f2 z x2 show ?thesis unfolding st2_def st1_def by simp
qed

section \<open>Invariance under rescaling of the weighting\<close>

lemma hd_map_one: "length w = 1 \<Longrightarrow> hd (map f w) = f (hd w)"
  by (cases w) auto

lemma broadcast2_scale_left:
  "broadcast2 (*) (map ((*) k) w) d =
     (case broadcast2 (*) w d of Inl e \<Rightarrow> Inl e | Inr a \<Rightarrow> Inr (map ((*) k) a))"
proof -
  have "map2 (*) (map ((*) k) w) d = map ((*) k) (map2 (*) w d)"
    by (auto simp: zip_map1 algebra_simps)
  moreover have "length w = 1 \<Longrightarrow> map ((*) (hd (map ((*) k) w))) d = map ((*) k) (map ((*) (hd w)) d)"
    by (simp add: hd_map_one algebra_simps)
  ultimately show ?thesis by (simp add: broadcast2_def algebra_simps)
qed

lemma broadcast2_div_scale_left:
  "broadcast2 (/) (map ((*) k) w) d =
     (case broadcast2 (/) w d of Inl e \<Rightarrow> Inl e | Inr a \<Rightarrow> Inr (map ((*) k) a))"
proof -
  have "map2 (/) (map ((*) k) w) d = map ((*) k) (map2 (/) w d)"
    by (auto simp: zip_map1 algebra_simps)
  moreover have "length w = 1 \<Longrightarrow> map ((/) (hd (map ((*) k) w))) d = map ((*) k) (map ((/) (hd w)) d)"
    by (simp add: hd_map_one algebra_simps)
  ultimately show ?thesis by (simp add: broadcast2_def algebra_simps)
qed

lemma normalisation_rescaled:
  assumes "\<And>z. psi' self z parameters = rescaled k psi self z parameters"
  shows "normalisation psi' self parameters =
     (case normalisation psi self parameters of Inl e \<Rightarrow> Inl e | Inr n \<Rightarrow> Inr (k * n))"
  by (simp add: normalisation_def assms rescaled_def broadcast2_scale_left broadcast2_div_scale_left
      trapz_scale split: sum.splits)

lemma probability_rescaled:
  assumes k: "k \<noteq> 0" and "\<And>z. psi' self z parameters = rescaled k psi self z parameters"
  shows "probability psi' self dataset parameters = probability psi self dataset parameters"
proof -
  have "(\<lambda>v. v / (k * n)) \<circ> (*) k = (\<lambda>v. v / n)" for n :: real
    using k by (auto simp: fun_eq_iff)
  then show ?thesis
    by (simp add: probability_def normalisation_rescaled [of psi', OF assms(2)] assms(2) rescaled_def
        broadcast2_div_scale_left Let_def split: sum.splits option.splits)
qed

text \<open>
  Claim C10. Multiplying \<^verbatim>\<open>psi_of_z\<close> by a positive constant \<open>k\<close> changes neither the value
  that \<^verbatim>\<open>probability\<close> returns nor the cache it leaves, for every instance, dataset and
  parameter assignment, errors included: \<open>k\<close> enters the numerator and the normalisation
  once each. In particular a power-law helper that multiplies its shape by a positive
  normalisation constant gives the same \<^verbatim>\<open>probability\<close> as the bare shape.
\<close>

theorem probability_rescaling:
  "(0 < k \<longrightarrow>
      probability (rescaled k psi) self dataset parameters = probability psi self dataset parameters)
   \<and> (parameters ''lamb'' = Some lamb \<and> 0 < c lamb (1 + z_max self) 1 \<longrightarrow>
      probability (PowerLawRedshift_psi_normalised c) self dataset parameters
        = probability PowerLawRedshift_psi_of_z self dataset parameters)"
proof (intro conjI impI)
  assume "0 < k"
  then have "k \<noteq> 0" by simp
  then show "probability (rescaled k psi) self dataset parameters
               = probability psi self dataset parameters"
    by (rule probability_rescaled) simp
next
  assume a: "parameters ''lamb'' = Some lamb \<and> 0 < c lamb (1 + z_max self) 1"
  then have k: "c lamb (1 + z_max self) 1 \<noteq> 0" by simp
  have "PowerLawRedshift_psi_normalised c self z parameters
          = rescaled (c lamb (1 + z_max self) 1) PowerLawRedshift_psi_of_z self z parameters" for z
    using a by (simp add: PowerLawRedshift_psi_normalised_def rescaled_def PowerLawRedshift_psi_of_z_def)
  with k show "probability (PowerLawRedshift_psi_normalised c) self dataset parameters
                 = probability PowerLawRedshift_psi_of_z self dataset parameters"
    by (rule probability_rescaled)
qed

text \<open>
  Claim C10 for a fresh power-law model with \<open>z_max = 1\<close>, \<open>lamb = 0\<close> and the redshifts
  \<open>[0, 0.5, 1]\<close>: the weighting doubled, and the helper normalised as a density on
  \<open>[low, high]\<close>.
\<close>

theorem probability_rescaling_witness:
  "probability (rescaled 2 PowerLawRedshift_psi_of_z) (init euclidean_dVc 1)
       [''redshift'' \<mapsto> [0, 1 / 2, 1]] [''lamb'' \<mapsto> 0]
     = probability PowerLawRedshift_psi_of_z (init euclidean_dVc 1)
       [''redshift'' \<mapsto> [0, 1 / 2, 1]] [''lamb'' \<mapsto> 0]
   \<and> probability
       (PowerLawRedshift_psi_normalised
          (\<lambda>alpha high low. (1 + alpha) / (high powr (1 + alpha) - low powr (1 + alpha))))
       (init euclidean_dVc 1) [''redshift'' \<mapsto> [0, 1 / 2, 1]] [''lamb'' \<mapsto> 0]
     = probability PowerLawRedshift_psi_of_z (init euclidean_dVc 1)
       [''redshift'' \<mapsto> [0, 1 / 2, 1]] [''lamb'' \<mapsto> 0]"
proof -
  let ?c = "\<lambda>alpha high low :: real. (1 + alpha) / (high powr (1 + alpha) - low powr (1 + alpha))"
  let ?p = "[''lamb'' \<mapsto> 0::real]"
  have k: "(0::real) < 2" by simp
  have l: "?p ''lamb'' = Some 0 \<and> 0 < ?c 0 (1 + z_max (init euclidean_dVc 1)) 1"
    by (simp add: init_z_max)
  note t = probability_rescaling [of 2 PowerLawRedshift_psi_of_z "init euclidean_dVc 1"
      "[''redshift'' \<mapsto> [0, 1 / 2, 1]]" ?p 0 ?c]
  from t k have a: "probability (rescaled 2 PowerLawRedshift_psi_of_z) (init euclidean_dVc 1)
       [''redshift'' \<mapsto> [0, 1 / 2, 1]] ?p
     = probability PowerLawRedshift_psi_of_z (init euclidean_dVc 1)
       [''redshift'' \<mapsto> [0, 1 / 2, 1]] ?p" by blast
  from t l have b: "probability (PowerLawRedshift_psi_normalised ?c)
       (init euclidean_dVc 1) [''redshift'' \<mapsto> [0, 1 / 2, 1]] ?p
     = probability PowerLawRedshift_psi_of_z (init euclidean_dVc 1)
       [''redshift'' \<mapsto> [0, 1 / 2, 1]] ?p" by blast
  from a b show ?thesis by (rule conjI)
qed

section \<open>The value of probability\<close>

lemma length_volume_term: "length (volume_term self z) = length z"
  by (simp add: volume_term_def)

lemma volume_term_cache: "volume_term (self\<lparr>cached_dvc_dz := c\<rparr>) z = volume_term self z"
  by (simp add: volume_term_def)

lemma integrand_nth:
  assumes "length w = length g" "length d = length g"
  shows "map2 (/) (map2 (*) w d) (map (\<lambda>z. 1 + z) g) = map (\<lambda>i. w ! i * d ! i / (1 + g ! i)) [0..<length g]"
  using assms by (intro nth_equalityI) simp_all

lemma recompute_ok:
  assumes "zs_np self \<noteq> []" "length (dvc_dz_np self) = length (zs_np self)"
  shows "recompute self z w n =
           (Inr (weighted_density w z n (volume_term self z)),
            self\<lparr>cached_dvc_dz := Some (volume_term self z)\<rparr>)"
  using assms by (simp add: recompute_def np_interp_ok volume_term_def)

lemma probability_valid:
  assumes "dataset ''redshift'' = Some z"
    and "psi self z parameters = Inr w" and "length w = length z"
    and "normalisation psi self parameters = Inr n"
    and "zs_np self \<noteq> []" and "length (dvc_dz_np self) = length (zs_np self)"
    and "cache_valid_for self z"
  shows "fst (probability psi self dataset parameters) = Inr (weighted_density w z n (volume_term self z))"
    and "cached_dvc_dz (snd (probability psi self dataset parameters)) = Some (volume_term self z)
         \<or> snd (probability psi self dataset parameters) = self"
proof -
  note e = probability_eval [where psi = psi and self = self and dataset = dataset and z = z
      and parameters = parameters and w = w and n = n, OF assms(1-4)] and r = recompute_ok [OF assms(5,6), of z w n]
  show "fst (probability psi self dataset parameters) = Inr (weighted_density w z n (volume_term self z))"
    using assms(7) by (auto simp: e r cache_valid_for_def length_volume_term split: option.splits)
  show "cached_dvc_dz (snd (probability psi self dataset parameters)) = Some (volume_term self z)
         \<or> snd (probability psi self dataset parameters) = self"
    by (auto simp: e r split: option.splits)
qed

lemma probability_spec_eq:
  assumes "shape_preserving psi"
    and "zs_np self \<noteq> []" and "length (dvc_dz_np self) = length (zs_np self)"
    and "\<And>z. dataset ''redshift'' = Some z \<Longrightarrow> cache_valid_for self z"
  shows "fst (probability psi self dataset parameters) = probability_spec psi self dataset parameters"
proof (cases "dataset ''redshift''")
  case None
  then show ?thesis by (simp add: probability_def probability_spec_def)
next
  case (Some z)
  show ?thesis
  proof (cases "psi self z parameters")
    case (Inl e)
    then show ?thesis using Some by (simp add: probability_def probability_spec_def)
  next
    case (Inr w)
    then have len: "length w = length z" using assms(1) by (auto simp: shape_preserving_def)
    show ?thesis
    proof (cases "normalisation psi self parameters")
      case (Inl e)
      then show ?thesis using Some Inr by (simp add: probability_def probability_spec_def)
    next
      case n: (Inr n)
      have "fst (probability psi self dataset parameters)
              = Inr (weighted_density w z n (volume_term self z))"
        using probability_valid(1) [where psi = psi and self = self and dataset = dataset and z = z
            and parameters = parameters and w = w and n = n]
          Some Inr len n assms(2,3) assms(4) [OF Some] by blast
      then show ?thesis using Some Inr n by (simp add: probability_spec_def)
    qed
  qed
qed

lemma weighted_density_nonneg:
  assumes "\<forall>i<length z. 0 \<le> w ! i \<and> - 1 < z ! i \<and> 0 \<le> v ! i" "0 \<le> n"
  shows "list_all (\<lambda>x. 0 \<le> x) (weighted_density w z n v)"
  using assms by (auto simp: weighted_density_def list_all_iff intro!: mult_nonneg_nonneg divide_nonneg_nonneg)

lemma inst_simps:
  "z_max ((init dVc zmax)\<lparr>cached_dvc_dz := c\<rparr>) = zmax"
  "zs_np ((init dVc zmax)\<lparr>cached_dvc_dz := c\<rparr>) = linspace (1 / 1000) zmax 1000"
  "zs ((init dVc zmax)\<lparr>cached_dvc_dz := c\<rparr>) = linspace (1 / 1000) zmax 1000"
  "dvc_dz_np ((init dVc zmax)\<lparr>cached_dvc_dz := c\<rparr>) = map (\<lambda>z. dVc z * 4 * pi) (linspace (1 / 1000) zmax 1000)"
  "dvc_dz ((init dVc zmax)\<lparr>cached_dvc_dz := c\<rparr>) = map (\<lambda>z. dVc z * 4 * pi) (linspace (1 / 1000) zmax 1000)"
  "cached_dvc_dz ((init dVc zmax)\<lparr>cached_dvc_dz := c\<rparr>) = c"
  by (simp_all add: init_simps)

lemma linspace_nonempty: "linspace a b 1000 \<noteq> []"
  using length_linspace [of a b 1000] by auto

lemma normalisation_nonneg:
  assumes sp: "shape_preserving psi" and nn: "nonnegative psi"
    and self: "self = (init dVc zmax)\<lparr>cached_dvc_dz := c\<rparr>"
    and zmax: "1 / 1000 < zmax" and dVc: "\<forall>x. 0 \<le> dVc x"
    and n: "normalisation psi self parameters = Inr n"
  shows "0 \<le> n"
proof -
  let ?g = "linspace (1 / 1000) zmax 1000"
  let ?d = "map (\<lambda>z. dVc z * 4 * pi) ?g"
  have zs: "zs self = ?g" and dd: "dvc_dz self = ?d" by (simp_all add: self inst_simps)
  obtain w where w: "psi self ?g parameters = Inr w"
    using n by (cases "psi self ?g parameters") (simp_all add: normalisation_def zs)
  have lw: "length w = length ?g" using sp w by (auto simp: shape_preserving_def)
  have w0: "\<forall>i<length ?g. 0 \<le> w ! i" using nn w lw by (auto simp: nonnegative_def list_all_length)
  have ld: "length ?d = length ?g" by simp
  have "normalisation psi self parameters
          = Inr (trapz (map2 (/) (map2 (*) w ?d) (map (\<lambda>z. 1 + z) ?g)) ?g)"
    using normalisation_eval [of psi self parameters w] w lw by (simp add: zs dd)
  then have neq: "n = trapz (map (\<lambda>i. w ! i * ?d ! i / (1 + ?g ! i)) [0..<length ?g]) ?g"
    using n by (simp only: integrand_nth [OF lw ld]) simp
  have sorted: "sorted ?g" using zmax by (intro strict_sorted_imp_sorted linspace_strict)
  have g0: "1 / 1000 \<le> ?g ! i" if "i < length ?g" for i
    using linspace_bounds [of "1 / 1000" zmax "?g ! i" 1000] zmax that by simp
  have "0 \<le> w ! i * ?d ! i / (1 + ?g ! i)" if "i < length ?g" for i
  proof -
    have "0 \<le> ?d ! i" using that dVc by (simp add: length_linspace)
    moreover have "0 < 1 + ?g ! i" using g0 [OF that] by simp
    ultimately show ?thesis using w0 that by (intro divide_nonneg_nonneg mult_nonneg_nonneg) auto
  qed
  then have "\<forall>y\<in>set (map (\<lambda>i. w ! i * ?d ! i / (1 + ?g ! i)) [0..<length ?g]). 0 \<le> y" by auto
  with sorted show ?thesis unfolding neq by (rule trapz_nonneg)
qed

lemma PowerLaw_nonnegative: "nonnegative PowerLawRedshift_psi_of_z"
  by (auto simp: nonnegative_def PowerLawRedshift_psi_of_z_def powerlaw_def list_all_iff
      split: option.splits)

lemma MadauDickinson_psi_Inr:
  "MadauDickinsonRedshift_psi_of_z self z p = Inr w \<Longrightarrow>
     \<exists>g k zp. p ''gamma'' = Some g \<and> p ''kappa'' = Some k \<and> p ''z_peak'' = Some zp"
  by (auto simp: MadauDickinsonRedshift_psi_of_z_def split: option.splits)

lemma MadauDickinson_nonnegative: "nonnegative MadauDickinsonRedshift_psi_of_z"
  unfolding nonnegative_def
proof (intro allI impI)
  fix self z p w
  assume a: "MadauDickinsonRedshift_psi_of_z self z p = Inr w"
  then obtain g k zp where "p ''gamma'' = Some g" "p ''kappa'' = Some k" "p ''z_peak'' = Some zp"
    using MadauDickinson_psi_Inr by blast
  then have w: "w = map (\<lambda>z. (if 0 \<le> z \<and> z \<le> z_max self then (1 + z) powr g else 0)
                    / (1 + ((1 + z) / (1 + zp)) powr k)) z"
    using a by (simp add: MadauDickinson_psi_eval)
  have "0 \<le> (if 0 \<le> x \<and> x \<le> m then (1 + x) powr g else 0) / (1 + ((1 + x) / (1 + zp)) powr k)"
    for x m :: real
    by (intro divide_nonneg_nonneg add_nonneg_nonneg) auto
  then show "list_all (\<lambda>v. 0 \<le> v) w" unfolding w by (simp add: list_all_iff)
qed

lemma PowerLaw_normalisation_pos:
  assumes self: "self = (init dVc zmax)\<lparr>cached_dvc_dz := c\<rparr>"
    and zmax: "1 / 1000 < zmax" and dVc: "\<forall>x>0. 0 < dVc x"
    and lamb: "parameters ''lamb'' = Some lamb"
  shows "\<exists>n. normalisation PowerLawRedshift_psi_of_z self parameters = Inr n \<and> 0 < n"
proof -
  let ?g = "linspace (1 / 1000) zmax 1000"
  let ?d = "map (\<lambda>z. dVc z * 4 * pi) ?g"
  let ?w = "map (\<lambda>z. if 0 \<le> z \<and> z \<le> zmax then (1 + z) powr lamb else 0) ?g"
  let ?y = "map (\<lambda>i. ?w ! i * ?d ! i / (1 + ?g ! i)) [0..<length ?g]"
  have zs: "zs self = ?g" and dd: "dvc_dz self = ?d" and zm: "z_max self = zmax"
    by (simp_all add: self inst_simps)
  have w: "PowerLawRedshift_psi_of_z self ?g parameters = Inr ?w"
    using lamb by (simp add: PowerLaw_psi_eval zm)
  have lw: "length ?w = length ?g" and ld: "length ?d = length ?g" by simp_all
  have "normalisation PowerLawRedshift_psi_of_z self parameters
          = Inr (trapz (map2 (/) (map2 (*) ?w ?d) (map (\<lambda>z. 1 + z) ?g)) ?g)"
    using normalisation_eval [of PowerLawRedshift_psi_of_z self parameters ?w] w
    by (simp add: zs dd)
  then have n: "normalisation PowerLawRedshift_psi_of_z self parameters = Inr (trapz ?y ?g)"
    by (simp only: integrand_nth [OF lw ld])
  have gb: "1 / 1000 \<le> ?g ! i \<and> ?g ! i \<le> zmax" if "i < 1000" for i
    using linspace_bounds [of "1 / 1000" zmax "?g ! i" 1000] zmax that by (simp add: length_linspace)
  have "0 < ?w ! i * ?d ! i / (1 + ?g ! i)" if "i < 1000" for i
  proof -
    note b = gb [OF that]
    have "0 < ?d ! i" using that dVc b by (simp add: length_linspace)
    moreover have "0 < 1 + ?g ! i" using b by simp
    moreover have "0 < ?w ! i" using that b by (simp add: length_linspace)
    ultimately show ?thesis by (intro divide_pos_pos mult_pos_pos)
  qed
  then have "\<forall>y\<in>set ?y. 0 < y" by (auto simp: length_linspace)
  moreover have "sorted_wrt (<) ?g" using zmax by (rule linspace_strict)
  ultimately have "0 < trapz ?y ?g" by (intro trapz_pos) (simp_all add: length_linspace)
  with n show ?thesis by blast
qed

lemma volume_term_below:
  assumes "self = (init dVc zmax)\<lparr>cached_dvc_dz := c\<rparr>" "x < 1 / 1000"
  shows "interp_at (zs_np self) (dvc_dz_np self) x = dVc (1 / 1000) * 4 * pi"
proof -
  have "hd (map (\<lambda>z. dVc z * 4 * pi) (linspace (1 / 1000) zmax 1000)) = dVc (1 / 1000) * 4 * pi"
    by (simp add: hd_map linspace_nonempty hd_linspace)
  then show ?thesis using assms by (simp add: inst_simps interp_at_below hd_linspace)
qed

lemma volume_term_top:
  assumes "self = (init dVc zmax)\<lparr>cached_dvc_dz := c\<rparr>" "1 / 1000 < zmax"
  shows "interp_at (zs_np self) (dvc_dz_np self) zmax = dVc zmax * 4 * pi"
proof -
  let ?g = "linspace (1 / 1000) zmax 1000"
  let ?d = "map (\<lambda>z. dVc z * 4 * pi) ?g"
  have l: "last ?g = zmax" by (simp add: last_linspace)
  have "interp_at ?g ?d (last ?g) = last ?d"
    using assms(2) by (intro interp_at_last linspace_strict linspace_nonempty) simp_all
  moreover have "last ?d = dVc (last ?g) * 4 * pi" by (simp add: last_map linspace_nonempty)
  ultimately show ?thesis using assms(1) l by (simp add: inst_simps)
qed

lemma init_cache_None: "(init dVc zmax)\<lparr>cached_dvc_dz := None\<rparr> = init dVc zmax"
  by (simp add: init_def Let_def)

lemma inst_grid:
  assumes "self = (init dVc zmax)\<lparr>cached_dvc_dz := c\<rparr>"
  shows "zs_np self \<noteq> []" and "length (dvc_dz_np self) = length (zs_np self)"
  using assms by (simp_all add: inst_simps linspace_nonempty)

lemma weighted_density_volume:
  "weighted_density w z n (volume_term self z)
     = map (\<lambda>i. w ! i / (1 + z ! i) / n * interp_at (zs_np self) (dvc_dz_np self) (z ! i)) [0..<length z]"
  by (simp add: weighted_density_def volume_term_def)

lemma volume_term_nonneg:
  assumes "self = (init dVc zmax)\<lparr>cached_dvc_dz := c\<rparr>" "1 / 1000 < zmax" "\<forall>x. 0 \<le> dVc x"
  shows "0 \<le> interp_at (zs_np self) (dvc_dz_np self) x"
proof -
  have "0 \<le> interp_at (linspace (1 / 1000) zmax 1000)
            (map (\<lambda>z. dVc z * 4 * pi) (linspace (1 / 1000) zmax 1000)) x"
    using assms(2,3) by (intro interp_at_nonneg linspace_strict linspace_nonempty) simp_all
  then show ?thesis using assms(1) by (simp add: inst_simps)
qed

text \<open>
  Claim C1, amended. For an instance whose cache slot is empty, holds the interpolation
  at the redshifts of the dataset, or holds an array that does not broadcast to their
  shape, \<^verbatim>\<open>probability\<close> returns what the spec says: \<open>psi_of_z\<close> at the redshifts,
  divided by \<open>1 + z\<close> and by \<open>normalisation(parameters)\<close>, times the volume term
  interpolated at those redshifts against the precomputed pair. Whatever it returns has
  the shape of the redshift array, and is non-negative when the grid increases
  (\<open>z_max > 0.001\<close>), the volume element and \<open>psi_of_z\<close> are non-negative, every
  redshift exceeds \<open>-1\<close> and the normalisation is not zero.
\<close>

theorem probability_matches_spec:
  assumes self: "self = (init dVc zmax)\<lparr>cached_dvc_dz := cache\<rparr>"
    and sp: "shape_preserving psi"
    and ds: "dataset ''redshift'' = Some z"
    and valid: "cache_valid_for self z"
  shows "fst (probability psi self dataset parameters) = probability_spec psi self dataset parameters
    \<and> (\<forall>w n. psi self z parameters = Inr w \<and> normalisation psi self parameters = Inr n \<longrightarrow>
          fst (probability psi self dataset parameters)
            = Inr (map (\<lambda>i. w ! i / (1 + z ! i) / n
                             * interp_at (zs_np self) (dvc_dz_np self) (z ! i)) [0..<length z]))
    \<and> (\<forall>r. fst (probability psi self dataset parameters) = Inr r \<longrightarrow>
          length r = length z
          \<and> (1 / 1000 < zmax \<and> (\<forall>x. 0 \<le> dVc x) \<and> nonnegative psi \<and> list_all (\<lambda>x. - 1 < x) z
               \<and> normalisation psi self parameters \<noteq> Inr 0
               \<longrightarrow> list_all (\<lambda>v. 0 \<le> v) r))"
proof -
  have eq: "fst (probability psi self dataset parameters) = probability_spec psi self dataset parameters"
    using probability_spec_eq [where psi = psi and self = self and dataset = dataset
        and parameters = parameters, OF sp inst_grid [OF self]] valid ds by simp
  have spec: "probability_spec psi self dataset parameters
                = Inr (weighted_density w z n (volume_term self z))"
    if "psi self z parameters = Inr w" "normalisation psi self parameters = Inr n" for w n
    using that ds by (simp add: probability_spec_def)
  have third: "length r = length z
          \<and> (1 / 1000 < zmax \<and> (\<forall>x. 0 \<le> dVc x) \<and> nonnegative psi \<and> list_all (\<lambda>x. - 1 < x) z
               \<and> normalisation psi self parameters \<noteq> Inr 0
               \<longrightarrow> list_all (\<lambda>v. 0 \<le> v) r)"
    if r: "fst (probability psi self dataset parameters) = Inr r" for r
  proof -
    from r eq have s: "probability_spec psi self dataset parameters = Inr r" by simp
    then obtain w where w: "psi self z parameters = Inr w"
      using ds by (cases "psi self z parameters") (simp_all add: probability_spec_def)
    from s w obtain n where n: "normalisation psi self parameters = Inr n"
      using ds by (cases "normalisation psi self parameters") (simp_all add: probability_spec_def)
    have rr: "r = weighted_density w z n (volume_term self z)" using spec [OF w n] s by simp
    have lw: "length w = length z" using sp w by (auto simp: shape_preserving_def)
    have "list_all (\<lambda>v. 0 \<le> v) r"
      if h: "1 / 1000 < zmax \<and> (\<forall>x. 0 \<le> dVc x) \<and> nonnegative psi \<and> list_all (\<lambda>x. - 1 < x) z
               \<and> normalisation psi self parameters \<noteq> Inr 0"
    proof -
      have n0: "0 \<le> n"
        using normalisation_nonneg [where psi = psi and self = self and parameters = parameters
            and n = n and dVc = dVc and zmax = zmax and c = cache] sp self n h by blast
      have w0: "\<forall>i<length z. 0 \<le> w ! i"
        using h w lw by (auto simp: nonnegative_def list_all_length)
      have v0: "\<forall>i<length z. 0 \<le> volume_term self z ! i"
        using volume_term_nonneg [OF self] h by (simp add: volume_term_def)
      have z0: "\<forall>i<length z. - 1 < z ! i" using h by (simp add: list_all_length)
      show ?thesis unfolding rr using w0 z0 v0 n0 by (intro weighted_density_nonneg) simp_all
    qed
    then show ?thesis by (simp add: rr length_weighted_density)
  qed
  show ?thesis
  proof (intro conjI allI impI)
    show "fst (probability psi self dataset parameters) = probability_spec psi self dataset parameters"
      by (rule eq)
  next
    fix w n
    assume "psi self z parameters = Inr w \<and> normalisation psi self parameters = Inr n"
    then show "fst (probability psi self dataset parameters)
            = Inr (map (\<lambda>i. w ! i / (1 + z ! i) / n
                             * interp_at (zs_np self) (dvc_dz_np self) (z ! i)) [0..<length z])"
      using spec [of w n] by (simp only: eq weighted_density_volume)
  next
    fix r
    assume "fst (probability psi self dataset parameters) = Inr r"
    then show "length r = length z" using third by blast
  next
    fix r
    assume "fst (probability psi self dataset parameters) = Inr r"
      and "1 / 1000 < zmax \<and> (\<forall>x. 0 \<le> dVc x) \<and> nonnegative psi \<and> list_all (\<lambda>x. - 1 < x) z
               \<and> normalisation psi self parameters \<noteq> Inr 0"
    then show "list_all (\<lambda>v. 0 \<le> v) r" using third by blast
  qed
qed

lemma euclidean_nonneg: "\<forall>x. 0 \<le> euclidean_dVc x"
  and euclidean_pos: "\<forall>x>0. 0 < euclidean_dVc x"
  by (simp_all add: euclidean_dVc_def)

lemma euclidean_differ: "euclidean_dVc (1 / 1000) \<noteq> euclidean_dVc 1"
  by (simp add: euclidean_dVc_def power2_eq_square)

lemma PowerLaw_probability_returns:
  assumes self: "self = (init dVc zmax)\<lparr>cached_dvc_dz := None\<rparr>"
    and zmax: "1 / 1000 < zmax" and dVc: "\<forall>x>0. 0 < dVc x"
    and lamb: "parameters ''lamb'' = Some lamb" and ds: "dataset ''redshift'' = Some z"
  shows "\<exists>r. probability_spec PowerLawRedshift_psi_of_z self dataset parameters = Inr r"
proof -
  obtain n where "normalisation PowerLawRedshift_psi_of_z self parameters = Inr n"
    using PowerLaw_normalisation_pos [where parameters = parameters and lamb = lamb,
        OF self zmax dVc lamb] by blast
  then show ?thesis using lamb ds by (simp add: probability_spec_def PowerLaw_psi_eval)
qed

text \<open>
  Claim C1 for a fresh power-law model with \<open>z_max = 1\<close>, \<open>lamb = 0\<close> and the redshifts
  \<open>[0, 0.5, 1]\<close>: the call returns three non-negative values, those of the spec.
\<close>

theorem probability_matches_spec_witness:
  "fst (probability PowerLawRedshift_psi_of_z (init euclidean_dVc 1)
          [''redshift'' \<mapsto> [0, 1 / 2, 1]] [''lamb'' \<mapsto> 0])
     = probability_spec PowerLawRedshift_psi_of_z (init euclidean_dVc 1)
          [''redshift'' \<mapsto> [0, 1 / 2, 1]] [''lamb'' \<mapsto> 0]
   \<and> (\<exists>r. fst (probability PowerLawRedshift_psi_of_z (init euclidean_dVc 1)
                 [''redshift'' \<mapsto> [0, 1 / 2, 1]] [''lamb'' \<mapsto> 0]) = Inr r
          \<and> length r = 3 \<and> list_all (\<lambda>v. 0 \<le> v) r)"
proof -
  let ?s = "init euclidean_dVc 1"
  let ?ds = "[''redshift'' \<mapsto> [0, 1 / 2, 1 :: real]]"
  let ?p = "[''lamb'' \<mapsto> 0 :: real]"
  have self: "?s = (init euclidean_dVc 1)\<lparr>cached_dvc_dz := None\<rparr>" by (simp add: init_cache_None)
  have ds: "?ds ''redshift'' = Some [0, 1 / 2, 1]" by simp
  have valid: "cache_valid_for ?s [0, 1 / 2, 1]" by (simp add: cache_valid_for_def init_cached)
  note t = probability_matches_spec [where psi = PowerLawRedshift_psi_of_z and parameters = ?p
      and dataset = ?ds and z = "[0, 1 / 2, 1]", OF self PowerLaw_shape ds valid]
  from t have eq: "fst (probability PowerLawRedshift_psi_of_z ?s ?ds ?p)
                     = probability_spec PowerLawRedshift_psi_of_z ?s ?ds ?p" by blast
  obtain r where "probability_spec PowerLawRedshift_psi_of_z ?s ?ds ?p = Inr r"
    using PowerLaw_probability_returns [where parameters = ?p and lamb = 0 and dataset = ?ds
        and z = "[0, 1 / 2, 1]", OF self _ euclidean_pos] by auto
  then have r: "fst (probability PowerLawRedshift_psi_of_z ?s ?ds ?p) = Inr r" using eq by simp
  have "normalisation PowerLawRedshift_psi_of_z ?s ?p \<noteq> Inr 0"
    using PowerLaw_normalisation_pos [where parameters = ?p and lamb = 0,
        OF self _ euclidean_pos] by auto
  then have h: "1 / 1000 < (1::real) \<and> (\<forall>x. 0 \<le> euclidean_dVc x)
           \<and> nonnegative PowerLawRedshift_psi_of_z \<and> list_all (\<lambda>x. - 1 < x) [0, 1 / 2, 1 :: real]
           \<and> normalisation PowerLawRedshift_psi_of_z ?s ?p \<noteq> Inr 0"
    using euclidean_nonneg PowerLaw_nonnegative by simp
  from t r h have "length r = length [0, 1 / 2, 1 :: real] \<and> list_all (\<lambda>v. 0 \<le> v) r" by blast
  with r eq show ?thesis by auto
qed

text \<open>
  The stale cache, for every cosmology whose volume element is positive and differs
  between the redshifts 0.001 and 1.
\<close>

lemma probability_stale_cache_any_cosmology:
  assumes dpos: "\<forall>x>0. 0 < dVc x" and differ: "dVc (1 / 1000) \<noteq> dVc 1"
  shows
  "fst (probability PowerLawRedshift_psi_of_z
          (snd (probability PowerLawRedshift_psi_of_z (init dVc 1)
                  [''redshift'' \<mapsto> [0]] [''lamb'' \<mapsto> 0]))
          [''redshift'' \<mapsto> [1]] [''lamb'' \<mapsto> 0])
     \<noteq> probability_spec PowerLawRedshift_psi_of_z
          (snd (probability PowerLawRedshift_psi_of_z (init dVc 1)
                  [''redshift'' \<mapsto> [0]] [''lamb'' \<mapsto> 0]))
          [''redshift'' \<mapsto> [1]] [''lamb'' \<mapsto> 0]"
proof -
  let ?psi = PowerLawRedshift_psi_of_z
  let ?s0 = "init dVc 1"
  let ?A = "[''redshift'' \<mapsto> [0 :: real]]" and ?B = "[''redshift'' \<mapsto> [1 :: real]]"
  let ?p = "[''lamb'' \<mapsto> 0 :: real]"
  let ?v0 = "dVc (1 / 1000) * 4 * pi" and ?v1 = "dVc 1 * 4 * pi"
  define s1 where "s1 = ?s0\<lparr>cached_dvc_dz := Some [?v0]\<rparr>"
  have self0: "?s0 = (init dVc 1)\<lparr>cached_dvc_dz := None\<rparr>" by (simp add: init_cache_None)
  have self1: "s1 = (init dVc 1)\<lparr>cached_dvc_dz := Some [?v0]\<rparr>" by (simp add: s1_def)
  obtain n where n0: "normalisation ?psi ?s0 ?p = Inr n" and pos: "0 < n"
    using PowerLaw_normalisation_pos [where parameters = ?p and lamb = 0,
        OF self0 _ dpos] by auto
  have n1: "normalisation ?psi s1 ?p = Inr n"
    using n0 by (simp add: s1_def normalisation_blind [OF PowerLaw_blind])
  have vt0: "volume_term ?s0 [0] = [?v0]"
    using volume_term_below [OF self0, of 0] by (simp add: volume_term_def)
  have vt1: "volume_term s1 [1] = [?v1]"
    using volume_term_top [OF self1] by (simp add: volume_term_def)
  have w0: "?psi ?s0 [0] ?p = Inr [1]" by (simp add: PowerLaw_psi_eval init_z_max)
  have w1: "?psi s1 [1] ?p = Inr [1]" by (simp add: PowerLaw_psi_eval self1 inst_simps)
  have first: "snd (probability ?psi ?s0 ?A ?p) = s1"
    using probability_eval [where psi = ?psi and self = ?s0 and dataset = ?A and z = "[0]"
        and parameters = ?p and w = "[1]" and n = n] w0 n0
      recompute_ok [OF inst_grid [OF self0], of "[0]" "[1]" n]
    by (simp add: init_cached vt0 s1_def)
  have second: "fst (probability ?psi s1 ?B ?p) = Inr (weighted_density [1] [1] n [?v0])"
    using probability_eval [where psi = ?psi and self = s1 and dataset = ?B and z = "[1]"
        and parameters = ?p and w = "[1]" and n = n] w1 n1
    by (simp add: self1 inst_simps)
  have spec: "probability_spec ?psi s1 ?B ?p = Inr (weighted_density [1] [1] n [?v1])"
    using w1 n1 by (simp add: probability_spec_def vt1)
  have "weighted_density [1] [1] n [?v0] \<noteq> weighted_density [1] [1] n [?v1]"
    using pos differ pi_gt_zero by (simp add: weighted_density_def field_simps)
  then show ?thesis unfolding first using second spec by simp
qed

text \<open>
  Claim C1 as stated fails on an instance that has served another dataset of the same
  shape. A power-law model with \<open>z_max = 1\<close> is called with the redshifts \<open>[0]\<close> and then
  with \<open>[1]\<close>, both with \<open>lamb = 0\<close>. The second call multiplies by the cached volume
  term, interpolated at \<open>0\<close>, and not by the one at \<open>1\<close>.
\<close>

theorem probability_stale_cache_counterexample:
  "fst (probability PowerLawRedshift_psi_of_z
          (snd (probability PowerLawRedshift_psi_of_z (init euclidean_dVc 1)
                  [''redshift'' \<mapsto> [0]] [''lamb'' \<mapsto> 0]))
          [''redshift'' \<mapsto> [1]] [''lamb'' \<mapsto> 0])
     \<noteq> probability_spec PowerLawRedshift_psi_of_z
          (snd (probability PowerLawRedshift_psi_of_z (init euclidean_dVc 1)
                  [''redshift'' \<mapsto> [0]] [''lamb'' \<mapsto> 0]))
          [''redshift'' \<mapsto> [1]] [''lamb'' \<mapsto> 0]"
  using euclidean_pos euclidean_differ by (rule probability_stale_cache_any_cosmology)

section \<open>The normalisation\<close>

lemma probability_state: "\<exists>c. snd (probability psi self dataset parameters) = self\<lparr>cached_dvc_dz := c\<rparr>"
proof -
  have same: "\<exists>c. self = self\<lparr>cached_dvc_dz := c\<rparr>"
    by (rule exI [of _ "cached_dvc_dz self"]) simp
  have upd: "\<exists>c. self' = self\<lparr>cached_dvc_dz := c\<rparr>" if "cache_dvc_dz self z = Inr self'" for z self'
    using that by (auto simp: cache_dvc_dz_def split: sum.splits)
  show ?thesis
    using same upd
    by (auto simp: probability_def Let_def split: option.splits sum.splits)
qed

lemma probability_needs_normalisation:
  "fst (probability psi self dataset parameters) = Inr r \<Longrightarrow>
     \<exists>n. normalisation psi self parameters = Inr n"
  by (cases "normalisation psi self parameters")
     (auto simp: probability_def split: option.splits sum.splits)

lemma normalisation_sum:
  assumes "psi self (zs self) parameters = Inr w" "length w = length (zs self)"
    "length (dvc_dz self) = length (zs self)"
  shows "normalisation psi self parameters =
      Inr (\<Sum>i<length (zs self) - 1. (zs self ! Suc i - zs self ! i)
              * (w ! Suc i * (dvc_dz self ! Suc i / (1 + zs self ! Suc i))
                 + w ! i * (dvc_dz self ! i / (1 + zs self ! i))) / 2)"
proof -
  let ?g = "zs self" and ?d = "dvc_dz self"
  let ?y = "map (\<lambda>i. w ! i * ?d ! i / (1 + ?g ! i)) [0..<length ?g]"
  have "normalisation psi self parameters = Inr (trapz ?y ?g)"
    using normalisation_eval [where psi = psi, OF assms] by (simp only: integrand_nth [OF assms(2,3)])
  also have "trapz ?y ?g = (\<Sum>i<length ?g - 1. (?g ! Suc i - ?g ! i) * (?y ! Suc i + ?y ! i) / 2)"
    by (rule trapz_sum) simp
  also have "\<dots> = (\<Sum>i<length ?g - 1. (?g ! Suc i - ?g ! i)
              * (w ! Suc i * (?d ! Suc i / (1 + ?g ! Suc i)) + w ! i * (?d ! i / (1 + ?g ! i))) / 2)"
    by (rule sum.cong) auto
  finally show ?thesis .
qed

text \<open>
  Claim C2. \<^verbatim>\<open>normalisation(parameters)\<close> is the trapezoidal sum over the internal grid of
  \<open>psi_of_z(grid)\<close> times (volume term / (1 + z)), a scalar. It keeps nothing between
  calls: the state that any call of \<^verbatim>\<open>probability\<close> leaves gives the same
  normalisation as the state before it, and \<^verbatim>\<open>probability\<close> returns a value only if
  the normalisation for the parameters of that very call was evaluated and returned.
\<close>

theorem normalisation_trapezoid:
  "(psi self (zs self) parameters = Inr w \<and> length w = length (zs self)
      \<and> length (dvc_dz self) = length (zs self) \<longrightarrow>
      normalisation psi self parameters =
        Inr (\<Sum>i<length (zs self) - 1. (zs self ! Suc i - zs self ! i)
                * (w ! Suc i * (dvc_dz self ! Suc i / (1 + zs self ! Suc i))
                   + w ! i * (dvc_dz self ! i / (1 + zs self ! i))) / 2))
   \<and> (cache_blind psi \<longrightarrow>
        normalisation psi (snd (probability psi self dataset earlier)) parameters
          = normalisation psi self parameters)
   \<and> (\<forall>r. fst (probability psi self dataset parameters) = Inr r \<longrightarrow>
          (\<exists>n. normalisation psi self parameters = Inr n))"
proof (intro conjI impI allI)
  assume "psi self (zs self) parameters = Inr w \<and> length w = length (zs self)
      \<and> length (dvc_dz self) = length (zs self)"
  then show "normalisation psi self parameters =
        Inr (\<Sum>i<length (zs self) - 1. (zs self ! Suc i - zs self ! i)
                * (w ! Suc i * (dvc_dz self ! Suc i / (1 + zs self ! Suc i))
                   + w ! i * (dvc_dz self ! i / (1 + zs self ! i))) / 2)"
    using normalisation_sum [where psi = psi and self = self and parameters = parameters and w = w]
    by blast
next
  assume b: "cache_blind psi"
  obtain c where "snd (probability psi self dataset earlier) = self\<lparr>cached_dvc_dz := c\<rparr>"
    using probability_state by blast
  then show "normalisation psi (snd (probability psi self dataset earlier)) parameters
          = normalisation psi self parameters"
    using normalisation_blind [OF b] by simp
next
  fix r
  assume "fst (probability psi self dataset parameters) = Inr r"
  then show "\<exists>n. normalisation psi self parameters = Inr n"
    by (rule probability_needs_normalisation)
qed

text \<open>
  Claim C2 for a fresh power-law model with \<open>z_max = 1\<close> and \<open>lamb = 0\<close>: the
  normalisation is the trapezoidal sum over the 1000 grid points, and it is the same
  after a call of \<^verbatim>\<open>probability\<close> with \<open>lamb = 3\<close>.
\<close>

theorem normalisation_trapezoid_witness:
  "normalisation PowerLawRedshift_psi_of_z (init euclidean_dVc 1) [''lamb'' \<mapsto> 0] =
     Inr (\<Sum>i<999. (zs (init euclidean_dVc 1) ! Suc i - zs (init euclidean_dVc 1) ! i)
            * (map (\<lambda>z. if 0 \<le> z \<and> z \<le> 1 then (1 + z) powr 0 else 0) (zs (init euclidean_dVc 1)) ! Suc i
                 * (dvc_dz (init euclidean_dVc 1) ! Suc i / (1 + zs (init euclidean_dVc 1) ! Suc i))
               + map (\<lambda>z. if 0 \<le> z \<and> z \<le> 1 then (1 + z) powr 0 else 0) (zs (init euclidean_dVc 1)) ! i
                 * (dvc_dz (init euclidean_dVc 1) ! i / (1 + zs (init euclidean_dVc 1) ! i))) / 2)
   \<and> normalisation PowerLawRedshift_psi_of_z
        (snd (probability PowerLawRedshift_psi_of_z (init euclidean_dVc 1)
                [''redshift'' \<mapsto> [0, 1 / 2, 1]] [''lamb'' \<mapsto> 3])) [''lamb'' \<mapsto> 0]
      = normalisation PowerLawRedshift_psi_of_z (init euclidean_dVc 1) [''lamb'' \<mapsto> 0]
   \<and> (\<exists>r n. fst (probability PowerLawRedshift_psi_of_z (init euclidean_dVc 1)
                   [''redshift'' \<mapsto> [0, 1 / 2, 1]] [''lamb'' \<mapsto> 0]) = Inr r
            \<and> normalisation PowerLawRedshift_psi_of_z (init euclidean_dVc 1) [''lamb'' \<mapsto> 0] = Inr n)"
proof -
  let ?s = "init euclidean_dVc 1"
  let ?ds = "[''redshift'' \<mapsto> [0, 1 / 2, 1 :: real]]"
  let ?p = "[''lamb'' \<mapsto> 0 :: real]"
  let ?w = "map (\<lambda>z. if 0 \<le> z \<and> z \<le> 1 then (1 + z) powr 0 else 0) (zs ?s)"
  have h: "PowerLawRedshift_psi_of_z ?s (zs ?s) ?p = Inr ?w \<and> length ?w = length (zs ?s)
      \<and> length (dvc_dz ?s) = length (zs ?s)"
    by (simp add: PowerLaw_psi_eval init_simps)
  have l: "length (zs ?s) - 1 = 999" by (simp add: init_simps length_linspace)
  note t = normalisation_trapezoid [where psi = PowerLawRedshift_psi_of_z and self = ?s
      and parameters = ?p and w = ?w and dataset = "[''redshift'' \<mapsto> [0, 1 / 2, 1]]"
      and earlier = "[''lamb'' \<mapsto> 3]"]
  from t h have a: "normalisation PowerLawRedshift_psi_of_z ?s ?p =
        Inr (\<Sum>i<length (zs ?s) - 1. (zs ?s ! Suc i - zs ?s ! i)
                * (?w ! Suc i * (dvc_dz ?s ! Suc i / (1 + zs ?s ! Suc i))
                   + ?w ! i * (dvc_dz ?s ! i / (1 + zs ?s ! i))) / 2)" by blast
  from t PowerLaw_blind have b: "normalisation PowerLawRedshift_psi_of_z
        (snd (probability PowerLawRedshift_psi_of_z ?s
                [''redshift'' \<mapsto> [0, 1 / 2, 1]] [''lamb'' \<mapsto> 3])) ?p
      = normalisation PowerLawRedshift_psi_of_z ?s ?p" by blast
  have self: "?s = (init euclidean_dVc 1)\<lparr>cached_dvc_dz := None\<rparr>" by (simp add: init_cache_None)
  obtain r where "probability_spec PowerLawRedshift_psi_of_z ?s ?ds ?p = Inr r"
    using PowerLaw_probability_returns [where parameters = ?p and lamb = 0 and dataset = ?ds
        and z = "[0, 1 / 2, 1]", OF self _ euclidean_pos] by auto
  moreover have "fst (probability PowerLawRedshift_psi_of_z ?s ?ds ?p)
                   = probability_spec PowerLawRedshift_psi_of_z ?s ?ds ?p"
    using probability_spec_eq [where psi = PowerLawRedshift_psi_of_z and self = ?s
        and dataset = ?ds and parameters = ?p, OF PowerLaw_shape inst_grid [OF self]]
    by (simp add: cache_valid_for_def init_cached)
  ultimately have r: "fst (probability PowerLawRedshift_psi_of_z ?s ?ds ?p) = Inr r" by simp
  from t r obtain n where "normalisation PowerLawRedshift_psi_of_z ?s ?p = Inr n" by blast
  with r have c: "\<exists>r n. fst (probability PowerLawRedshift_psi_of_z ?s ?ds ?p) = Inr r
            \<and> normalisation PowerLawRedshift_psi_of_z ?s ?p = Inr n" by blast
  from a b c show ?thesis unfolding l by (intro conjI)
qed

section \<open>The cache\<close>

lemma probability_spec_blind:
  assumes "cache_blind psi"
  shows "probability_spec psi (self\<lparr>cached_dvc_dz := c\<rparr>) dataset parameters
           = probability_spec psi self dataset parameters"
proof -
  have "psi (self\<lparr>cached_dvc_dz := c\<rparr>) = psi self" using assms by (simp add: cache_blind_def)
  then show ?thesis
    by (simp add: probability_spec_def normalisation_blind [OF assms] volume_term_cache
        split: option.splits sum.splits)
qed

lemma probability_step:
  assumes sp: "shape_preserving psi"
    and g: "zs_np self \<noteq> []" "length (dvc_dz_np self) = length (zs_np self)"
  shows "snd (probability psi self dataset parameters) = self
       \<or> (\<exists>z. dataset ''redshift'' = Some z
             \<and> \<not> (\<exists>c. cached_dvc_dz self = Some c \<and> (length c = length z \<or> length c = 1))
             \<and> probability psi self dataset parameters
                 = (probability_spec psi self dataset parameters,
                    self\<lparr>cached_dvc_dz := Some (volume_term self z)\<rparr>))"
proof (cases "dataset ''redshift''")
  case None
  then show ?thesis by (simp add: probability_def)
next
  case (Some z)
  show ?thesis
  proof (cases "psi self z parameters")
    case (Inl e)
    then show ?thesis using Some by (simp add: probability_def)
  next
    case (Inr w)
    then have len: "length w = length z" using sp by (auto simp: shape_preserving_def)
    show ?thesis
    proof (cases "normalisation psi self parameters")
      case (Inl e)
      then show ?thesis using Some Inr by (simp add: probability_def)
    next
      case n: (Inr n)
      note e = probability_eval [where psi = psi and self = self and dataset = dataset and z = z
          and parameters = parameters and w = w and n = n, OF Some Inr len n]
      have spec: "probability_spec psi self dataset parameters
                    = Inr (weighted_density w z n (volume_term self z))"
        using Some Inr n by (simp add: probability_spec_def)
      show ?thesis
        using Some by (auto simp: e recompute_ok [OF g] spec split: option.splits)
    qed
  qed
qed

lemma probability_never_cache_error:
  assumes sp: "shape_preserving psi"
    and g: "zs_np self \<noteq> []" "length (dvc_dz_np self) = length (zs_np self)"
    and e: "fst (probability psi self dataset parameters) = Inl e"
  shows "probability_spec psi self dataset parameters = Inl e"
proof (cases "dataset ''redshift''")
  case None
  then show ?thesis using e by (simp add: probability_def probability_spec_def)
next
  case (Some z)
  show ?thesis
  proof (cases "psi self z parameters")
    case (Inl e')
    then show ?thesis using Some e by (simp add: probability_def probability_spec_def)
  next
    case (Inr w)
    then have len: "length w = length z" using sp by (auto simp: shape_preserving_def)
    show ?thesis
    proof (cases "normalisation psi self parameters")
      case (Inl e')
      then show ?thesis using Some Inr e by (simp add: probability_def probability_spec_def)
    next
      case n: (Inr n)
      note ev = probability_eval [where psi = psi and self = self and dataset = dataset and z = z
          and parameters = parameters and w = w and n = n, OF Some Inr len n]
      have "\<exists>r. fst (probability psi self dataset parameters) = Inr r"
        by (auto simp: ev recompute_ok [OF g] split: option.splits)
      then show ?thesis using e by simp
    qed
  qed
qed

lemma probability_step_cases:
  assumes sp: "shape_preserving psi"
    and g: "zs_np self \<noteq> []" "length (dvc_dz_np self) = length (zs_np self)"
    and A: "A ''redshift'' = Some a"
  shows "snd (probability psi self A p) = self
       \<or> snd (probability psi self A p) = self\<lparr>cached_dvc_dz := Some (volume_term self a)\<rparr>"
  using probability_step [where psi = psi and self = self and dataset = A and parameters = p,
      OF sp g] A
  by auto

lemma cache_valid_after:
  assumes sp: "shape_preserving psi"
    and g: "zs_np self \<noteq> []" "length (dvc_dz_np self) = length (zs_np self)"
    and A: "A ''redshift'' = Some a"
    and v: "cache_valid_for self a"
  shows "cache_valid_for (snd (probability psi self A p)) a"
proof -
  from probability_step_cases [where psi = psi and self = self and A = A and a = a and p = p,
      OF sp g A]
  show ?thesis
  proof
    assume "snd (probability psi self A p) = self"
    then show ?thesis using v by simp
  next
    assume "snd (probability psi self A p) = self\<lparr>cached_dvc_dz := Some (volume_term self a)\<rparr>"
    then show ?thesis by (simp add: cache_valid_for_def volume_term_cache)
  qed
qed

lemma cache_valid_other:
  assumes sp: "shape_preserving psi"
    and g: "zs_np self \<noteq> []" "length (dvc_dz_np self) = length (zs_np self)"
    and B: "B ''redshift'' = Some b"
    and v: "cache_valid_for self a"
    and l: "length b \<noteq> length a" "length b \<noteq> 1"
  shows "cache_valid_for (snd (probability psi self B q)) a"
proof -
  from probability_step_cases [where psi = psi and self = self and A = B and a = b and p = q,
      OF sp g B]
  show ?thesis
  proof
    assume "snd (probability psi self B q) = self"
    then show ?thesis using v by simp
  next
    assume "snd (probability psi self B q) = self\<lparr>cached_dvc_dz := Some (volume_term self b)\<rparr>"
    then show ?thesis using l by (simp add: cache_valid_for_def length_volume_term)
  qed
qed

lemma probability_valid_any_cache:
  assumes sp: "shape_preserving psi" and blind: "cache_blind psi"
    and g: "zs_np self \<noteq> []" "length (dvc_dz_np self) = length (zs_np self)"
    and A: "A ''redshift'' = Some a"
    and v: "cache_valid_for (self\<lparr>cached_dvc_dz := c\<rparr>) a"
  shows "fst (probability psi (self\<lparr>cached_dvc_dz := c\<rparr>) A p) = probability_spec psi self A p"
proof -
  have "fst (probability psi (self\<lparr>cached_dvc_dz := c\<rparr>) A p)
          = probability_spec psi (self\<lparr>cached_dvc_dz := c\<rparr>) A p"
    using probability_spec_eq [where psi = psi and self = "self\<lparr>cached_dvc_dz := c\<rparr>"
        and dataset = A and parameters = p, OF sp] g A v by simp
  then show ?thesis by (simp add: probability_spec_blind [OF blind])
qed

text \<open>
  Claim C3, amended. (1) Calling \<^verbatim>\<open>probability\<close> twice with the same dataset returns the
  same result, from any cache state. (2) Two cache states that are both empty, filled
  from this dataset, or not broadcastable to its shape give the same result: in these
  states the value depends on the dataset and the parameters alone. (3) From such a state,
  the calls A, B, A return for the third call what the first returned, when the redshift
  array of B has neither the length of A's nor length one. (4) No cache state makes the
  call raise: an error of \<^verbatim>\<open>probability\<close> is the error of the dataset lookup, of
  \<^verbatim>\<open>psi_of_z\<close> or of \<^verbatim>\<open>normalisation\<close>.
\<close>

theorem probability_cache_transparent:
  assumes self: "self = (init dVc zmax)\<lparr>cached_dvc_dz := cache\<rparr>"
    and sp: "shape_preserving psi" and blind: "cache_blind psi"
    and A: "A ''redshift'' = Some a" and B: "B ''redshift'' = Some b"
  shows "fst (probability psi (snd (probability psi self A p)) A p) = fst (probability psi self A p)
     \<and> (cache_valid_for self a \<and> cache_valid_for (self\<lparr>cached_dvc_dz := other\<rparr>) a \<longrightarrow>
          fst (probability psi (self\<lparr>cached_dvc_dz := other\<rparr>) A p) = fst (probability psi self A p))
     \<and> (cache_valid_for self a \<and> length b \<noteq> length a \<and> length b \<noteq> 1 \<longrightarrow>
          fst (probability psi (snd (probability psi (snd (probability psi self A p)) B q)) A p)
            = fst (probability psi self A p))
     \<and> (\<forall>e. fst (probability psi self A p) = Inl e \<longrightarrow> probability_spec psi self A p = Inl e)"
proof (intro conjI impI allI)
  note g = inst_grid [OF self]
  have same: "self\<lparr>cached_dvc_dz := cached_dvc_dz self\<rparr> = self" by simp
  have valid: "fst (probability psi self A p) = probability_spec psi self A p"
    if "cache_valid_for self a"
    using probability_valid_any_cache [where psi = psi and self = self and A = A and a = a
        and p = p and c = "cached_dvc_dz self", OF sp blind g A] that
    by (simp only: same)
  show "fst (probability psi (snd (probability psi self A p)) A p) = fst (probability psi self A p)"
  proof -
    from probability_step [where psi = psi and self = self and dataset = A and parameters = p,
        OF sp g]
    consider "snd (probability psi self A p) = self"
      | "probability psi self A p
           = (probability_spec psi self A p, self\<lparr>cached_dvc_dz := Some (volume_term self a)\<rparr>)"
      using A by auto
    then show ?thesis
    proof cases
      case 1
      then show ?thesis by simp
    next
      case 2
      have "cache_valid_for (self\<lparr>cached_dvc_dz := Some (volume_term self a)\<rparr>) a"
        by (simp add: cache_valid_for_def volume_term_cache)
      then have "fst (probability psi (self\<lparr>cached_dvc_dz := Some (volume_term self a)\<rparr>) A p)
                   = probability_spec psi self A p"
        using probability_valid_any_cache [where psi = psi and self = self and A = A and a = a
            and p = p and c = "Some (volume_term self a)", OF sp blind g A] by blast
      then show ?thesis by (simp add: 2)
    qed
  qed
  show "fst (probability psi (self\<lparr>cached_dvc_dz := other\<rparr>) A p) = fst (probability psi self A p)"
    if "cache_valid_for self a \<and> cache_valid_for (self\<lparr>cached_dvc_dz := other\<rparr>) a"
    using that valid probability_valid_any_cache [where psi = psi and self = self and A = A
        and a = a and p = p and c = other, OF sp blind g A] by simp
  show "fst (probability psi (snd (probability psi (snd (probability psi self A p)) B q)) A p)
            = fst (probability psi self A p)"
    if h: "cache_valid_for self a \<and> length b \<noteq> length a \<and> length b \<noteq> 1"
  proof -
    let ?s1 = "snd (probability psi self A p)"
    let ?s2 = "snd (probability psi ?s1 B q)"
    obtain c1 where c1: "?s1 = self\<lparr>cached_dvc_dz := c1\<rparr>" using probability_state by blast
    obtain c2 where "?s2 = ?s1\<lparr>cached_dvc_dz := c2\<rparr>" using probability_state by blast
    then have c2: "?s2 = self\<lparr>cached_dvc_dz := c2\<rparr>" by (simp add: c1)
    have g1: "zs_np ?s1 \<noteq> []" "length (dvc_dz_np ?s1) = length (zs_np ?s1)"
      using g by (simp_all add: c1)
    have v1: "cache_valid_for ?s1 a"
      using cache_valid_after [where psi = psi and self = self and A = A and a = a and p = p,
          OF sp g A] h by blast
    have v2: "cache_valid_for ?s2 a"
      using cache_valid_other [where psi = psi and self = ?s1 and B = B and b = b and a = a
          and q = q, OF sp g1 B v1] h by blast
    have "fst (probability psi ?s2 A p) = probability_spec psi self A p"
      using probability_valid_any_cache [where psi = psi and self = self and A = A and a = a
          and p = p and c = c2, OF sp blind g A] v2 by (simp add: c2)
    then show ?thesis using valid h by simp
  qed
  show "probability_spec psi self A p = Inl e" if "fst (probability psi self A p) = Inl e" for e
    using sp g that by (rule probability_never_cache_error)
qed

text \<open>
  Claim C3 (amended) for a fresh power-law model with \<open>z_max = 1\<close>: A has the redshifts
  \<open>[0, 0.5, 1]\<close>, B has \<open>[0, 1]\<close>, the other cache state holds an array of length two,
  and a call without the parameter \<open>lamb\<close> raises the \<^verbatim>\<open>KeyError\<close> of \<^verbatim>\<open>psi_of_z\<close>.
\<close>

theorem probability_cache_transparent_witness:
  "fst (probability PowerLawRedshift_psi_of_z
          (snd (probability PowerLawRedshift_psi_of_z (init euclidean_dVc 1)
                  [''redshift'' \<mapsto> [0, 1 / 2, 1]] [''lamb'' \<mapsto> 0]))
          [''redshift'' \<mapsto> [0, 1 / 2, 1]] [''lamb'' \<mapsto> 0])
     = fst (probability PowerLawRedshift_psi_of_z (init euclidean_dVc 1)
              [''redshift'' \<mapsto> [0, 1 / 2, 1]] [''lamb'' \<mapsto> 0])
   \<and> fst (probability PowerLawRedshift_psi_of_z ((init euclidean_dVc 1)\<lparr>cached_dvc_dz := Some [1, 2]\<rparr>)
          [''redshift'' \<mapsto> [0, 1 / 2, 1]] [''lamb'' \<mapsto> 0])
     = fst (probability PowerLawRedshift_psi_of_z (init euclidean_dVc 1)
              [''redshift'' \<mapsto> [0, 1 / 2, 1]] [''lamb'' \<mapsto> 0])
   \<and> fst (probability PowerLawRedshift_psi_of_z
          (snd (probability PowerLawRedshift_psi_of_z
                  (snd (probability PowerLawRedshift_psi_of_z (init euclidean_dVc 1)
                          [''redshift'' \<mapsto> [0, 1 / 2, 1]] [''lamb'' \<mapsto> 0]))
                  [''redshift'' \<mapsto> [0, 1]] [''lamb'' \<mapsto> 0]))
          [''redshift'' \<mapsto> [0, 1 / 2, 1]] [''lamb'' \<mapsto> 0])
     = fst (probability PowerLawRedshift_psi_of_z (init euclidean_dVc 1)
              [''redshift'' \<mapsto> [0, 1 / 2, 1]] [''lamb'' \<mapsto> 0])
   \<and> probability_spec PowerLawRedshift_psi_of_z (init euclidean_dVc 1)
        [''redshift'' \<mapsto> [0, 1 / 2, 1]] Map.empty = Inl (KeyError ''lamb'')"
proof -
  let ?psi = PowerLawRedshift_psi_of_z
  let ?s = "init euclidean_dVc 1"
  let ?A = "[''redshift'' \<mapsto> [0, 1 / 2, 1 :: real]]" and ?B = "[''redshift'' \<mapsto> [0, 1 :: real]]"
  let ?p = "[''lamb'' \<mapsto> 0 :: real]"
  have self: "?s = (init euclidean_dVc 1)\<lparr>cached_dvc_dz := None\<rparr>" by (simp add: init_cache_None)
  have A: "?A ''redshift'' = Some [0, 1 / 2, 1]" and B: "?B ''redshift'' = Some [0, 1]" by simp_all
  have v: "cache_valid_for ?s [0, 1 / 2, 1]"
    and v': "cache_valid_for (?s\<lparr>cached_dvc_dz := Some [1, 2]\<rparr>) [0, 1 / 2, 1]"
    by (simp_all add: cache_valid_for_def init_cached)
  have l: "length [0, 1 :: real] \<noteq> length [0, 1 / 2, 1 :: real] \<and> length [0, 1 :: real] \<noteq> 1"
    by simp
  have e: "fst (probability ?psi ?s ?A Map.empty) = Inl (KeyError ''lamb'')"
    by (simp add: probability_def PowerLawRedshift_psi_of_z_def)
  note t = probability_cache_transparent [where psi = ?psi and self = ?s and A = ?A and B = ?B
      and a = "[0, 1 / 2, 1]" and b = "[0, 1]" and q = ?p and other = "Some [1, 2]",
      OF self PowerLaw_shape PowerLaw_blind A B]
  from t [of ?p] have c1: "fst (probability ?psi (snd (probability ?psi ?s ?A ?p)) ?A ?p)
                     = fst (probability ?psi ?s ?A ?p)" by blast
  from t [of ?p] v v' have c2: "fst (probability ?psi (?s\<lparr>cached_dvc_dz := Some [1, 2]\<rparr>) ?A ?p)
                     = fst (probability ?psi ?s ?A ?p)" by blast
  from t [of ?p] v l have c3: "fst (probability ?psi
          (snd (probability ?psi (snd (probability ?psi ?s ?A ?p)) ?B ?p)) ?A ?p)
     = fst (probability ?psi ?s ?A ?p)" by blast
  from t [of Map.empty] e have c4: "probability_spec ?psi ?s ?A Map.empty = Inl (KeyError ''lamb'')"
    by blast
  from c1 c2 c3 c4 show ?thesis by (intro conjI)
qed

text \<open>
  The calls A, B, A and the used instance, for every cosmology whose volume element is
  positive and differs between the redshifts 0.001 and 1.
\<close>

lemma probability_cache_any_cosmology:
  assumes dpos: "\<forall>x>0. 0 < dVc x" and differ: "dVc (1 / 1000) \<noteq> dVc 1"
  shows
  "fst (probability PowerLawRedshift_psi_of_z
          (snd (probability PowerLawRedshift_psi_of_z
                  (snd (probability PowerLawRedshift_psi_of_z (init dVc 1)
                          [''redshift'' \<mapsto> [0, 1]] [''lamb'' \<mapsto> 0]))
                  [''redshift'' \<mapsto> [1]] [''lamb'' \<mapsto> 0]))
          [''redshift'' \<mapsto> [0, 1]] [''lamb'' \<mapsto> 0])
     \<noteq> fst (probability PowerLawRedshift_psi_of_z (init dVc 1)
              [''redshift'' \<mapsto> [0, 1]] [''lamb'' \<mapsto> 0])
   \<and> fst (probability PowerLawRedshift_psi_of_z
          (snd (probability PowerLawRedshift_psi_of_z (init dVc 1)
                  [''redshift'' \<mapsto> [0]] [''lamb'' \<mapsto> 0]))
          [''redshift'' \<mapsto> [1]] [''lamb'' \<mapsto> 0])
     \<noteq> fst (probability PowerLawRedshift_psi_of_z (init dVc 1)
              [''redshift'' \<mapsto> [1]] [''lamb'' \<mapsto> 0])"
proof -
  let ?psi = PowerLawRedshift_psi_of_z
  let ?s0 = "init dVc 1"
  let ?A = "[''redshift'' \<mapsto> [0, 1 :: real]]" and ?B = "[''redshift'' \<mapsto> [1 :: real]]"
  let ?Z = "[''redshift'' \<mapsto> [0 :: real]]"
  let ?p = "[''lamb'' \<mapsto> 0 :: real]"
  let ?v0 = "dVc (1 / 1000) * 4 * pi" and ?v1 = "dVc 1 * 4 * pi"
  have self: "?s0\<lparr>cached_dvc_dz := c\<rparr> = (init dVc 1)\<lparr>cached_dvc_dz := c\<rparr>" for c
    by simp
  have self0: "?s0 = (init dVc 1)\<lparr>cached_dvc_dz := None\<rparr>" by (simp add: init_cache_None)
  obtain n where n0: "normalisation ?psi ?s0 ?p = Inr n" and pos: "0 < n"
    using PowerLaw_normalisation_pos [where parameters = ?p and lamb = 0,
        OF self0 _ dpos] by auto
  have n: "normalisation ?psi (?s0\<lparr>cached_dvc_dz := c\<rparr>) ?p = Inr n" for c
    using n0 by (simp add: normalisation_blind [OF PowerLaw_blind])
  have i0: "interp_at (zs_np ?s0) (dvc_dz_np ?s0) 0 = ?v0"
    using volume_term_below [OF self0, of 0] by simp
  have i1: "interp_at (zs_np ?s0) (dvc_dz_np ?s0) 1 = ?v1"
    using volume_term_top [OF self0] by simp
  have g: "zs_np (?s0\<lparr>cached_dvc_dz := c\<rparr>) \<noteq> []"
      "length (dvc_dz_np (?s0\<lparr>cached_dvc_dz := c\<rparr>)) = length (zs_np (?s0\<lparr>cached_dvc_dz := c\<rparr>))"
    for c using inst_grid [OF self, of c] by simp_all
  have wA: "?psi (?s0\<lparr>cached_dvc_dz := c\<rparr>) [0, 1] ?p = Inr [1, 1]" for c
    by (simp add: PowerLaw_psi_eval inst_simps)
  have wB: "?psi (?s0\<lparr>cached_dvc_dz := c\<rparr>) [1] ?p = Inr [1]" for c
    by (simp add: PowerLaw_psi_eval inst_simps)
  have wZ: "?psi (?s0\<lparr>cached_dvc_dz := c\<rparr>) [0] ?p = Inr [1]" for c
    by (simp add: PowerLaw_psi_eval inst_simps)
  have evA: "probability ?psi (?s0\<lparr>cached_dvc_dz := c\<rparr>) ?A ?p =
     (case c of
        None \<Rightarrow> recompute (?s0\<lparr>cached_dvc_dz := c\<rparr>) [0, 1] [1, 1] n
      | Some c' \<Rightarrow>
          if length c' = length [0, 1 :: real] then (Inr (weighted_density [1, 1] [0, 1] n c'), ?s0\<lparr>cached_dvc_dz := c\<rparr>)
          else if length c' = 1 then (Inr (weighted_density [1, 1] [0, 1] n (replicate (length [0, 1 :: real]) (hd c'))), ?s0\<lparr>cached_dvc_dz := c\<rparr>)
          else recompute (?s0\<lparr>cached_dvc_dz := c\<rparr>) [0, 1] [1, 1] n)" for c
    using probability_eval [where psi = ?psi and self = "?s0\<lparr>cached_dvc_dz := c\<rparr>" and dataset = ?A
        and z = "[0, 1]" and parameters = ?p and w = "[1, 1]" and n = n] wA n by simp
  have evB: "probability ?psi (?s0\<lparr>cached_dvc_dz := c\<rparr>) ?B ?p =
     (case c of
        None \<Rightarrow> recompute (?s0\<lparr>cached_dvc_dz := c\<rparr>) [1] [1] n
      | Some c' \<Rightarrow>
          if length c' = length [1 :: real] then (Inr (weighted_density [1] [1] n c'), ?s0\<lparr>cached_dvc_dz := c\<rparr>)
          else if length c' = 1 then (Inr (weighted_density [1] [1] n (replicate (length [1 :: real]) (hd c'))), ?s0\<lparr>cached_dvc_dz := c\<rparr>)
          else recompute (?s0\<lparr>cached_dvc_dz := c\<rparr>) [1] [1] n)" for c
    using probability_eval [where psi = ?psi and self = "?s0\<lparr>cached_dvc_dz := c\<rparr>" and dataset = ?B
        and z = "[1]" and parameters = ?p and w = "[1]" and n = n] wB n by simp
  have evZ: "probability ?psi (?s0\<lparr>cached_dvc_dz := None\<rparr>) ?Z ?p
               = recompute (?s0\<lparr>cached_dvc_dz := None\<rparr>) [0] [1] n"
    using probability_eval [where psi = ?psi and self = "?s0\<lparr>cached_dvc_dz := None\<rparr>" and dataset = ?Z
        and z = "[0]" and parameters = ?p and w = "[1]" and n = n] wZ n by simp
  have rA: "recompute (?s0\<lparr>cached_dvc_dz := c\<rparr>) [0, 1] [1, 1] n
              = (Inr (weighted_density [1, 1] [0, 1] n [?v0, ?v1]), ?s0\<lparr>cached_dvc_dz := Some [?v0, ?v1]\<rparr>)" for c
    by (simp add: recompute_ok [OF g] volume_term_def i0 i1)
  have rB: "recompute (?s0\<lparr>cached_dvc_dz := c\<rparr>) [1] [1] n
              = (Inr (weighted_density [1] [1] n [?v1]), ?s0\<lparr>cached_dvc_dz := Some [?v1]\<rparr>)" for c
    by (simp add: recompute_ok [OF g] volume_term_def i1)
  have rZ: "recompute (?s0\<lparr>cached_dvc_dz := c\<rparr>) [0] [1] n
              = (Inr (weighted_density [1] [0] n [?v0]), ?s0\<lparr>cached_dvc_dz := Some [?v0]\<rparr>)" for c
    by (simp add: recompute_ok [OF g] volume_term_def i0)
  note rA0 = rA [of None, unfolded init_cache_None] and rB0 = rB [of None, unfolded init_cache_None]
    and rZ0 = rZ [of None, unfolded init_cache_None]
  have first: "probability ?psi ?s0 ?A ?p
      = (Inr (weighted_density [1, 1] [0, 1] n [?v0, ?v1]), ?s0\<lparr>cached_dvc_dz := Some [?v0, ?v1]\<rparr>)"
    using evA [of None] by (simp add: rA0 init_cache_None)
  have second: "snd (probability ?psi (?s0\<lparr>cached_dvc_dz := Some [?v0, ?v1]\<rparr>) ?B ?p)
      = ?s0\<lparr>cached_dvc_dz := Some [?v1]\<rparr>"
    using evB [of "Some [?v0, ?v1]"] by (simp add: rB)
  have third: "fst (probability ?psi (?s0\<lparr>cached_dvc_dz := Some [?v1]\<rparr>) ?A ?p)
      = Inr (weighted_density [1, 1] [0, 1] n [?v1, ?v1])"
    using evA [of "Some [?v1]"] by (simp add: numeral_2_eq_2)
  have ne: "weighted_density [1, 1] [0, 1] n [?v1, ?v1] \<noteq> weighted_density [1, 1] [0, 1] n [?v0, ?v1]"
    using pos differ pi_gt_zero
    by (simp add: weighted_density_def field_simps upt_rec)
  have a: "fst (probability ?psi (snd (probability ?psi (snd (probability ?psi ?s0 ?A ?p)) ?B ?p)) ?A ?p)
       \<noteq> fst (probability ?psi ?s0 ?A ?p)"
    using ne by (simp add: first second third)
  have firstZ: "snd (probability ?psi ?s0 ?Z ?p) = ?s0\<lparr>cached_dvc_dz := Some [?v0]\<rparr>"
    using evZ by (simp add: rZ0 init_cache_None)
  have stale: "fst (probability ?psi (?s0\<lparr>cached_dvc_dz := Some [?v0]\<rparr>) ?B ?p)
      = Inr (weighted_density [1] [1] n [?v0])"
    using evB [of "Some [?v0]"] by simp
  have fresh: "fst (probability ?psi ?s0 ?B ?p) = Inr (weighted_density [1] [1] n [?v1])"
    using evB [of None] by (simp add: rB0 init_cache_None)
  have ne': "weighted_density [1] [1] n [?v0] \<noteq> weighted_density [1] [1] n [?v1]"
    using pos differ pi_gt_zero
    by (simp add: weighted_density_def field_simps)
  have b: "fst (probability ?psi (snd (probability ?psi ?s0 ?Z ?p)) ?B ?p)
       \<noteq> fst (probability ?psi ?s0 ?B ?p)"
    using ne' by (simp add: firstZ stale fresh)
  from a b show ?thesis by (rule conjI)
qed

text \<open>
  Claim C3 as stated fails twice on a power-law model with \<open>z_max = 1\<close> and \<open>lamb = 0\<close>.
  With A of redshifts \<open>[0, 1]\<close> and B of redshifts \<open>[1]\<close>, a different shape, the calls
  A, B, A return for the third call another result than for the first: the cache of B
  has length one, numpy broadcasts it, and no exception asks for a recomputation. And
  the call with the redshifts \<open>[1]\<close> returns another result after a call with the
  redshifts \<open>[0]\<close> than on a fresh instance: the result depends on the cache state.
\<close>

theorem probability_cache_counterexample:
  "fst (probability PowerLawRedshift_psi_of_z
          (snd (probability PowerLawRedshift_psi_of_z
                  (snd (probability PowerLawRedshift_psi_of_z (init euclidean_dVc 1)
                          [''redshift'' \<mapsto> [0, 1]] [''lamb'' \<mapsto> 0]))
                  [''redshift'' \<mapsto> [1]] [''lamb'' \<mapsto> 0]))
          [''redshift'' \<mapsto> [0, 1]] [''lamb'' \<mapsto> 0])
     \<noteq> fst (probability PowerLawRedshift_psi_of_z (init euclidean_dVc 1)
              [''redshift'' \<mapsto> [0, 1]] [''lamb'' \<mapsto> 0])
   \<and> fst (probability PowerLawRedshift_psi_of_z
          (snd (probability PowerLawRedshift_psi_of_z (init euclidean_dVc 1)
                  [''redshift'' \<mapsto> [0]] [''lamb'' \<mapsto> 0]))
          [''redshift'' \<mapsto> [1]] [''lamb'' \<mapsto> 0])
     \<noteq> fst (probability PowerLawRedshift_psi_of_z (init euclidean_dVc 1)
              [''redshift'' \<mapsto> [1]] [''lamb'' \<mapsto> 0])"
  using euclidean_pos euclidean_differ by (rule probability_cache_any_cosmology)

section \<open>The power-law model\<close>

lemma map_const_replicate: "\<forall>x\<in>set xs. f x = c \<Longrightarrow> map f xs = replicate (length xs) c"
  by (induction xs) auto

lemma map2_mult_ones: "length d = n \<Longrightarrow> map2 (*) (replicate n (1::real)) d = d"
  by (intro nth_equalityI) simp_all

lemma PowerLaw_psi_zero:
  assumes "list_all (\<lambda>x. 0 \<le> x \<and> x \<le> z_max self) z"
  shows "PowerLawRedshift_psi_of_z self z [''lamb'' \<mapsto> 0] = Inr (replicate (length z) 1)"
proof -
  have "\<forall>x\<in>set z. (if 0 \<le> x \<and> x \<le> z_max self then (1 + x) powr 0 else 0) = 1"
    using assms by (auto simp: list_all_iff)
  then have "map (\<lambda>x. if 0 \<le> x \<and> x \<le> z_max self then (1 + x) powr 0 else 0) z
               = replicate (length z) 1"
    by (rule map_const_replicate)
  then show ?thesis by (simp add: PowerLaw_psi_eval)
qed

lemma PowerLaw_normalisation_zero:
  assumes self: "self = (init dVc zmax)\<lparr>cached_dvc_dz := c\<rparr>" and zmax: "1 / 1000 \<le> zmax"
  shows "normalisation PowerLawRedshift_psi_of_z self [''lamb'' \<mapsto> 0]
           = Inr (trapz (map2 (/) (dvc_dz self) (map (\<lambda>z. 1 + z) (zs self))) (zs self))"
proof -
  let ?g = "linspace (1 / 1000) zmax 1000"
  have zs: "zs self = ?g" and zm: "z_max self = zmax" by (simp_all add: self inst_simps)
  have ld: "length (dvc_dz self) = length (zs self)" by (simp add: self inst_simps)
  have "list_all (\<lambda>x. 0 \<le> x \<and> x \<le> z_max self) (zs self)"
    unfolding list_all_iff zs zm using linspace_bounds [OF zmax, of _ 1000] by fastforce
  then have w: "PowerLawRedshift_psi_of_z self (zs self) [''lamb'' \<mapsto> 0]
                  = Inr (replicate (length (zs self)) 1)"
    by (rule PowerLaw_psi_zero)
  show ?thesis
    using normalisation_eval [where psi = PowerLawRedshift_psi_of_z and self = self
        and parameters = "[''lamb'' \<mapsto> 0]", OF w _ ld]
    by (simp add: map2_mult_ones [OF ld])
qed

lemma PowerLaw_spec_zero:
  assumes self: "self = (init dVc zmax)\<lparr>cached_dvc_dz := cache\<rparr>"
    and range: "list_all (\<lambda>x. 0 \<le> x \<and> x \<le> zmax) z"
    and zmax: "1 / 1000 \<le> zmax"
    and ds: "dataset ''redshift'' = Some z"
  shows "probability_spec PowerLawRedshift_psi_of_z self dataset [''lamb'' \<mapsto> 0]
           = Inr (map (\<lambda>x. interp_at (zs_np self) (dvc_dz_np self) x / (1 + x)
                              / trapz (map2 (/) (dvc_dz self) (map (\<lambda>z. 1 + z) (zs self))) (zs self)) z)"
proof -
  let ?n = "trapz (map2 (/) (dvc_dz self) (map (\<lambda>z. 1 + z) (zs self))) (zs self)"
  have zm: "z_max self = zmax" by (simp add: self inst_simps)
  have w: "PowerLawRedshift_psi_of_z self z [''lamb'' \<mapsto> 0] = Inr (replicate (length z) 1)"
    using range by (intro PowerLaw_psi_zero) (simp add: zm)
  have n: "normalisation PowerLawRedshift_psi_of_z self [''lamb'' \<mapsto> 0] = Inr ?n"
    using self zmax by (rule PowerLaw_normalisation_zero)
  have "weighted_density (replicate (length z) 1) z ?n (volume_term self z)
      = map (\<lambda>x. interp_at (zs_np self) (dvc_dz_np self) x / (1 + x) / ?n) z"
    by (intro nth_equalityI) (simp_all add: weighted_density_def volume_term_def)
  then show ?thesis using w n ds by (simp add: probability_spec_def)
qed

text \<open>
  Claim C8, amended. For the power-law model with \<open>lamb = 0\<close>, \<^verbatim>\<open>psi_of_z\<close> is \<open>1\<close> at
  every redshift in \<open>[0, z_max]\<close>. When moreover \<open>z_max\<close> is at least the first grid point
  \<open>0.001\<close> and the cache slot is empty, holds the volume term of these redshifts, or holds
  an array that does not broadcast to their shape, \<^verbatim>\<open>probability\<close> is the volume-only
  density: the interpolated volume term divided by \<open>1 + z\<close> and by the trapezoidal
  integral over the grid of volume term / (1 + z).
\<close>

theorem PowerLaw_alpha_zero:
  assumes self: "self = (init dVc zmax)\<lparr>cached_dvc_dz := cache\<rparr>"
    and range: "list_all (\<lambda>x. 0 \<le> x \<and> x \<le> zmax) z"
  shows "PowerLawRedshift_psi_of_z self z [''lamb'' \<mapsto> 0] = Inr (replicate (length z) 1)
    \<and> (1 / 1000 \<le> zmax \<and> dataset ''redshift'' = Some z \<and> cache_valid_for self z \<longrightarrow>
         fst (PowerLawRedshift_call self dataset 0)
           = Inr (map (\<lambda>x. interp_at (zs_np self) (dvc_dz_np self) x / (1 + x)
                              / trapz (map2 (/) (dvc_dz self) (map (\<lambda>z. 1 + z) (zs self))) (zs self)) z))"
proof (intro conjI impI)
  have zm: "z_max self = zmax" by (simp add: self inst_simps)
  show w: "PowerLawRedshift_psi_of_z self z [''lamb'' \<mapsto> 0] = Inr (replicate (length z) 1)"
    using range by (intro PowerLaw_psi_zero) (simp add: zm)
  assume h: "1 / 1000 \<le> zmax \<and> dataset ''redshift'' = Some z \<and> cache_valid_for self z"
  let ?n = "trapz (map2 (/) (dvc_dz self) (map (\<lambda>z. 1 + z) (zs self))) (zs self)"
  have n: "normalisation PowerLawRedshift_psi_of_z self [''lamb'' \<mapsto> 0] = Inr ?n"
  proof -
    from h have "1 / 1000 \<le> zmax" by blast
    with self show ?thesis by (rule PowerLaw_normalisation_zero)
  qed
  have "fst (probability PowerLawRedshift_psi_of_z self dataset [''lamb'' \<mapsto> 0])
          = Inr (weighted_density (replicate (length z) 1) z ?n (volume_term self z))"
    using probability_valid(1) [where psi = PowerLawRedshift_psi_of_z and self = self
        and dataset = dataset and z = z and parameters = "[''lamb'' \<mapsto> 0]"
        and w = "replicate (length z) 1" and n = ?n] h w n inst_grid [OF self]
    by simp
  moreover have "weighted_density (replicate (length z) 1) z ?n (volume_term self z)
      = map (\<lambda>x. interp_at (zs_np self) (dvc_dz_np self) x / (1 + x) / ?n) z"
    by (intro nth_equalityI) (simp_all add: weighted_density_def volume_term_def)
  ultimately show "fst (PowerLawRedshift_call self dataset 0)
           = Inr (map (\<lambda>x. interp_at (zs_np self) (dvc_dz_np self) x / (1 + x) / ?n) z)"
    by (simp add: PowerLawRedshift_call_def)
qed

text \<open>
  Claim C8 for a fresh power-law model with \<open>z_max = 1\<close> and the redshifts \<open>[0, 0.5, 1]\<close>.
\<close>

theorem PowerLaw_alpha_zero_witness:
  "PowerLawRedshift_psi_of_z (init euclidean_dVc 1) [0, 1 / 2, 1] [''lamb'' \<mapsto> 0] = Inr [1, 1, 1]
   \<and> fst (PowerLawRedshift_call (init euclidean_dVc 1) [''redshift'' \<mapsto> [0, 1 / 2, 1]] 0)
       = Inr (map (\<lambda>x. interp_at (zs_np (init euclidean_dVc 1)) (dvc_dz_np (init euclidean_dVc 1)) x
                         / (1 + x)
                         / trapz (map2 (/) (dvc_dz (init euclidean_dVc 1))
                                    (map (\<lambda>z. 1 + z) (zs (init euclidean_dVc 1))))
                             (zs (init euclidean_dVc 1)))
                [0, 1 / 2, 1])"
proof -
  let ?s = "init euclidean_dVc 1"
  let ?ds = "[''redshift'' \<mapsto> [0, 1 / 2, 1 :: real]]"
  have self: "?s = (init euclidean_dVc 1)\<lparr>cached_dvc_dz := None\<rparr>" by (simp add: init_cache_None)
  have range: "list_all (\<lambda>x. 0 \<le> x \<and> x \<le> 1) [0, 1 / 2, 1 :: real]" by simp
  have h: "1 / 1000 \<le> (1::real) \<and> ?ds ''redshift'' = Some [0, 1 / 2, 1]
           \<and> cache_valid_for ?s [0, 1 / 2, 1]"
    by (simp add: cache_valid_for_def init_cached)
  note t = PowerLaw_alpha_zero [where dataset = ?ds and z = "[0, 1 / 2, 1]", OF self range]
  from t have a: "PowerLawRedshift_psi_of_z ?s [0, 1 / 2, 1] [''lamb'' \<mapsto> 0]
                    = Inr (replicate (length [0, 1 / 2, 1 :: real]) 1)" by blast
  have r: "replicate (length [0, 1 / 2, 1 :: real]) (1::real) = [1, 1, 1]"
    by (simp add: numeral_3_eq_3)
  from t h have b: "fst (PowerLawRedshift_call ?s ?ds 0)
       = Inr (map (\<lambda>x. interp_at (zs_np ?s) (dvc_dz_np ?s) x / (1 + x)
                         / trapz (map2 (/) (dvc_dz ?s) (map (\<lambda>z. 1 + z) (zs ?s))) (zs ?s))
                [0, 1 / 2, 1])" by blast
  from a b show ?thesis unfolding r by (rule conjI)
qed

text \<open>
  Claim C8 as stated fails on an instance that has served another dataset of the same
  shape. A power-law model with \<open>z_max = 1\<close> is called with the redshifts \<open>[0]\<close> and then
  with \<open>[1]\<close>, both with \<open>lamb = 0\<close>. The second result is not the volume-only density
  at \<open>1\<close>: it carries the volume term that the first call cached.
\<close>

theorem PowerLaw_alpha_zero_counterexample:
  "fst (PowerLawRedshift_call
          (snd (PowerLawRedshift_call (init euclidean_dVc 1) [''redshift'' \<mapsto> [0]] 0))
          [''redshift'' \<mapsto> [1]] 0)
     \<noteq> Inr (map (\<lambda>x. interp_at
                         (zs_np (snd (PowerLawRedshift_call (init euclidean_dVc 1) [''redshift'' \<mapsto> [0]] 0)))
                         (dvc_dz_np (snd (PowerLawRedshift_call (init euclidean_dVc 1) [''redshift'' \<mapsto> [0]] 0)))
                         x / (1 + x)
                       / trapz (map2 (/)
                                  (dvc_dz (snd (PowerLawRedshift_call (init euclidean_dVc 1) [''redshift'' \<mapsto> [0]] 0)))
                                  (map (\<lambda>z. 1 + z)
                                     (zs (snd (PowerLawRedshift_call (init euclidean_dVc 1) [''redshift'' \<mapsto> [0]] 0)))))
                           (zs (snd (PowerLawRedshift_call (init euclidean_dVc 1) [''redshift'' \<mapsto> [0]] 0))))
              [1])"
proof -
  define s where "s = snd (PowerLawRedshift_call (init euclidean_dVc 1) [''redshift'' \<mapsto> [0]] 0)"
  obtain c where self: "s = (init euclidean_dVc 1)\<lparr>cached_dvc_dz := c\<rparr>"
    using probability_state [of PowerLawRedshift_psi_of_z "init euclidean_dVc 1"
        "[''redshift'' \<mapsto> [0]]" "[''lamb'' \<mapsto> 0]"]
    by (auto simp: s_def PowerLawRedshift_call_def)
  have range: "list_all (\<lambda>x. 0 \<le> x \<and> x \<le> 1) [1 :: real]" by simp
  have spec: "probability_spec PowerLawRedshift_psi_of_z s [''redshift'' \<mapsto> [1]] [''lamb'' \<mapsto> 0]
           = Inr (map (\<lambda>x. interp_at (zs_np s) (dvc_dz_np s) x / (1 + x)
                              / trapz (map2 (/) (dvc_dz s) (map (\<lambda>z. 1 + z) (zs s))) (zs s)) [1])"
    using self range by (rule PowerLaw_spec_zero) simp_all
  have "fst (probability PowerLawRedshift_psi_of_z s [''redshift'' \<mapsto> [1]] [''lamb'' \<mapsto> 0])
          \<noteq> probability_spec PowerLawRedshift_psi_of_z s [''redshift'' \<mapsto> [1]] [''lamb'' \<mapsto> 0]"
    using probability_stale_cache_any_cosmology [OF euclidean_pos euclidean_differ]
    by (simp add: s_def PowerLawRedshift_call_def)
  then have "fst (PowerLawRedshift_call s [''redshift'' \<mapsto> [1]] 0)
     \<noteq> Inr (map (\<lambda>x. interp_at (zs_np s) (dvc_dz_np s) x / (1 + x)
                              / trapz (map2 (/) (dvc_dz s) (map (\<lambda>z. 1 + z) (zs s))) (zs s)) [1])"
    unfolding spec by (simp add: PowerLawRedshift_call_def)
  then show ?thesis unfolding s_def .
qed

lemma probability_returns:
  assumes "dataset ''redshift'' = Some z"
    and "psi self z parameters = Inr w" and "length w = length z"
    and "normalisation psi self parameters = Inr n"
    and g: "zs_np self \<noteq> []" "length (dvc_dz_np self) = length (zs_np self)"
  shows "\<exists>v. fst (probability psi self dataset parameters) = Inr (weighted_density w z n v)"
  by (auto simp: probability_eval [where psi = psi and self = self and dataset = dataset and z = z
        and parameters = parameters and w = w and n = n, OF assms(1-4)] recompute_ok [OF g]
      split: option.splits)

lemma PowerLaw_normalisation_returns:
  assumes self: "self = (init dVc zmax)\<lparr>cached_dvc_dz := c\<rparr>"
  shows "\<exists>n. normalisation PowerLawRedshift_psi_of_z self [''lamb'' \<mapsto> lamb] = Inr n"
proof -
  have "length (dvc_dz self) = length (zs self)" by (simp add: self inst_simps)
  then show ?thesis
    using normalisation_eval [where psi = PowerLawRedshift_psi_of_z and self = self
        and parameters = "[''lamb'' \<mapsto> lamb]"
        and w = "map (\<lambda>z. if 0 \<le> z \<and> z \<le> z_max self then (1 + z) powr lamb else 0) (zs self)"]
    by (simp add: PowerLaw_psi_eval)
qed

lemma volume_term_above:
  assumes self: "self = (init dVc zmax)\<lparr>cached_dvc_dz := c\<rparr>"
    and "1 / 1000 \<le> zmax" "zmax < x"
  shows "interp_at (zs_np self) (dvc_dz_np self) x = dVc zmax * 4 * pi"
proof -
  let ?g = "linspace (1 / 1000) zmax 1000"
  let ?d = "map (\<lambda>z. dVc z * 4 * pi) ?g"
  have h: "hd ?g = 1 / 1000" and l: "last ?g = zmax" by (simp_all add: hd_linspace last_linspace)
  have "last ?d = dVc (last ?g) * 4 * pi" by (simp add: last_map linspace_nonempty)
  then have "interp_at ?g ?d x = dVc zmax * 4 * pi"
    using assms(2,3) by (simp add: interp_at_def h l)
  then show ?thesis by (simp add: self inst_simps)
qed

text \<open>
  Claim C9. For a power-law model, in any cache state and for any redshift array,
  \<^verbatim>\<open>probability\<close> returns an array of the shape of the redshifts: it does not raise for a
  redshift equal to \<open>z_max\<close>, nor for one above. The interpolation is defined at every
  redshift. At a redshift above \<open>z_max\<close> the weighting is zero; for \<open>z_max > 0.001\<close> and
  a positive volume element, where the normalisation is positive, the returned density is
  zero there and the interpolated volume term is the one of the last grid point. At
  \<open>z_max\<close> itself the weighting is still \<open>(1 + z_max) ^ lamb\<close>.
\<close>

theorem PowerLaw_beyond_z_max:
  assumes self: "self = (init dVc zmax)\<lparr>cached_dvc_dz := cache\<rparr>"
    and ds: "dataset ''redshift'' = Some z"
  shows "\<exists>w r. PowerLawRedshift_psi_of_z self z [''lamb'' \<mapsto> lamb] = Inr w
          \<and> np_interp z (zs_np self) (dvc_dz_np self) = Inr (volume_term self z)
          \<and> fst (PowerLawRedshift_call self dataset lamb) = Inr r
          \<and> length r = length z
          \<and> (\<forall>i<length z. zmax < z ! i \<longrightarrow>
                w ! i = 0
                \<and> (1 / 1000 < zmax \<and> (\<forall>x>0. 0 < dVc x) \<longrightarrow>
                      r ! i = 0 \<and> volume_term self z ! i = dVc zmax * 4 * pi))
          \<and> (\<forall>i<length z. z ! i = zmax \<and> 0 \<le> zmax \<longrightarrow> w ! i = (1 + zmax) powr lamb)"
proof -
  let ?p = "[''lamb'' \<mapsto> lamb]"
  let ?w = "map (\<lambda>x. if 0 \<le> x \<and> x \<le> zmax then (1 + x) powr lamb else 0) z"
  note g = inst_grid [OF self]
  have zm: "z_max self = zmax" by (simp add: self inst_simps)
  have w: "PowerLawRedshift_psi_of_z self z ?p = Inr ?w" by (simp add: PowerLaw_psi_eval zm)
  have i: "np_interp z (zs_np self) (dvc_dz_np self) = Inr (volume_term self z)"
    using g by (simp add: np_interp_ok volume_term_def)
  obtain n where n: "normalisation PowerLawRedshift_psi_of_z self ?p = Inr n"
    using PowerLaw_normalisation_returns [OF self] by blast
  obtain v where r: "fst (probability PowerLawRedshift_psi_of_z self dataset ?p)
                       = Inr (weighted_density ?w z n v)"
    using probability_returns [where psi = PowerLawRedshift_psi_of_z and self = self
        and dataset = dataset and z = z and parameters = ?p and w = ?w and n = n, OF ds w _ n g]
    by auto
  have above: "?w ! i = 0
                \<and> (1 / 1000 < zmax \<and> (\<forall>x>0. 0 < dVc x) \<longrightarrow>
                      weighted_density ?w z n v ! i = 0
                      \<and> volume_term self z ! i = dVc zmax * 4 * pi)"
    if "i < length z" "zmax < z ! i" for i
    using that volume_term_above [OF self, of "z ! i"]
    by (simp add: weighted_density_def volume_term_def)
  have at: "?w ! i = (1 + zmax) powr lamb" if "i < length z" "z ! i = zmax \<and> 0 \<le> zmax" for i
    using that by simp
  show ?thesis
    apply (rule exI [of _ ?w])
    apply (rule exI [of _ "weighted_density ?w z n v"])
    using w i r above at
    apply (simp only: PowerLawRedshift_call_def length_weighted_density)
    apply blast
    done
qed

text \<open>
  Claim C9 for a fresh power-law model with \<open>z_max = 1\<close>, \<open>lamb = 2\<close> and the redshifts
  \<open>[1, 1.01]\<close>: the call returns two values, the second of them zero.
\<close>

theorem PowerLaw_beyond_z_max_witness:
  "\<exists>r. fst (PowerLawRedshift_call (init euclidean_dVc 1) [''redshift'' \<mapsto> [1, 101 / 100]] 2) = Inr r
       \<and> length r = 2 \<and> r ! 1 = 0"
proof -
  let ?s = "init euclidean_dVc 1"
  let ?ds = "[''redshift'' \<mapsto> [1, 101 / 100 :: real]]"
  have self: "?s = (init euclidean_dVc 1)\<lparr>cached_dvc_dz := None\<rparr>" by (simp add: init_cache_None)
  have ds: "?ds ''redshift'' = Some [1, 101 / 100]" by simp
  note t = PowerLaw_beyond_z_max [where dataset = ?ds and z = "[1, 101 / 100]" and lamb = 2
      and dVc = euclidean_dVc and zmax = 1 and cache = None and self = ?s, OF self ds]
  from t obtain w where "\<exists>r. PowerLawRedshift_psi_of_z ?s [1, 101 / 100] [''lamb'' \<mapsto> 2] = Inr w
          \<and> np_interp [1, 101 / 100] (zs_np ?s) (dvc_dz_np ?s) = Inr (volume_term ?s [1, 101 / 100])
          \<and> fst (PowerLawRedshift_call ?s ?ds 2) = Inr r
          \<and> length r = length [1, 101 / 100 :: real]
          \<and> (\<forall>i<length [1, 101 / 100 :: real]. 1 < [1, 101 / 100 :: real] ! i \<longrightarrow>
                w ! i = 0
                \<and> (1 / 1000 < (1::real) \<and> (\<forall>x>0. 0 < euclidean_dVc x) \<longrightarrow>
                      r ! i = 0 \<and> volume_term ?s [1, 101 / 100] ! i = euclidean_dVc 1 * 4 * pi))
          \<and> (\<forall>i<length [1, 101 / 100 :: real]. [1, 101 / 100 :: real] ! i = 1 \<and> 0 \<le> (1::real) \<longrightarrow>
                w ! i = (1 + 1) powr 2)" ..
  then obtain r where r: "fst (PowerLawRedshift_call ?s ?ds 2) = Inr r"
      and l: "length r = length [1, 101 / 100 :: real]"
      and a: "\<forall>i<length [1, 101 / 100 :: real]. 1 < [1, 101 / 100 :: real] ! i \<longrightarrow>
                w ! i = 0
                \<and> (1 / 1000 < (1::real) \<and> (\<forall>x>0. 0 < euclidean_dVc x) \<longrightarrow>
                      r ! i = 0 \<and> volume_term ?s [1, 101 / 100] ! i = euclidean_dVc 1 * 4 * pi)"
    by (elim exE conjE)
  have "(1::nat) < length [1, 101 / 100 :: real]" and "1 < [1, 101 / 100 :: real] ! 1"
    and "1 / 1000 < (1::real)" by simp_all
  with a euclidean_pos have "r ! 1 = 0" by blast
  moreover have "length r = 2" using l by simp
  ultimately show ?thesis using r by blast
qed

section \<open>The peaked model against the power-law model\<close>










end
